theory Spec2Isabelle
  imports Complex_Main "HOL-Library.Multiset" "HOL-Library.Monad_Syntax"
begin

section \<open>Data model (hooks/useVocabTest.ts)\<close>

text \<open>
  \<^verbatim>\<open>export interface Word { word; meaning; example; difficulty }\<close>, all four fields
  strings.
\<close>

record Word =
  word :: string
  meaning :: string
  example :: string
  difficulty :: string

section \<open>The random source\<close>

text \<open>
  \<^verbatim>\<open>Math.random()\<close> returns a number \<open>r\<close> with \<open>0 \<le> r < 1\<close>. A run of
  \<^verbatim>\<open>shuffleArray\<close> draws one such number in every iteration; \<open>rnd i\<close> is the number
  drawn in the iteration whose loop variable is \<open>i\<close>. Numbers are taken as exact
  rationals. \<open>random_source\<close> is the contract of \<^verbatim>\<open>Math.random\<close>.
\<close>

definition random_source :: "(nat \<Rightarrow> rat) \<Rightarrow> bool" where
  "random_source rnd \<longleftrightarrow> (\<forall>i. 0 \<le> rnd i \<and> rnd i < 1)"

text \<open>\<^verbatim>\<open>Math.floor(Math.random() * (i + 1))\<close>\<close>

definition random_index :: "(nat \<Rightarrow> rat) \<Rightarrow> nat \<Rightarrow> nat" where
  "random_index rnd i = nat \<lfloor>rnd i * of_nat (i + 1)\<rfloor>"

section \<open>shuffleArray\<close>

text \<open>
  \<^verbatim>\<open>[shuffled[i], shuffled[j]] = [shuffled[j], shuffled[i]]\<close>: both reads happen before
  the two writes.
\<close>

definition swap :: "nat \<Rightarrow> nat \<Rightarrow> 'a list \<Rightarrow> 'a list" where
  "swap i j xs = xs[i := xs ! j, j := xs ! i]"

text \<open>
  \<^verbatim>\<open>for (let i = shuffled.length - 1; i > 0; i--) { j = ...; swap }\<close>.
  \<open>shuffle_loop rnd i xs\<close> is the loop entered with loop variable \<open>i\<close> and array
  contents \<open>xs\<close>; it stops at \<open>i = 0\<close>.
\<close>

fun shuffle_loop :: "(nat \<Rightarrow> rat) \<Rightarrow> nat \<Rightarrow> 'a list \<Rightarrow> 'a list" where
  "shuffle_loop rnd 0 xs = xs"
| "shuffle_loop rnd (Suc k) xs =
     shuffle_loop rnd k (swap (Suc k) (random_index rnd (Suc k)) xs)"

text \<open>
  The value returned by \<^verbatim>\<open>shuffleArray(array)\<close>. For the empty array
  \<^verbatim>\<open>shuffled.length - 1\<close> is \<open>-1\<close> and the loop body never runs; the truncated
  subtraction gives \<open>0\<close>, where it does not run either.
\<close>

definition shuffleArray :: "(nat \<Rightarrow> rat) \<Rightarrow> 'a list \<Rightarrow> 'a list" where
  "shuffleArray rnd array = shuffle_loop rnd (length array - 1) array"

subsection \<open>shuffleArray on a store of arrays\<close>

text \<open>
  A JavaScript array is a reference. To say what \<^verbatim>\<open>shuffleArray\<close> does to the array
  it is given, arrays live in a store: the store is a list of arrays and a reference is
  a position in it. \<^verbatim>\<open>const shuffled = [...array]\<close> allocates a new array with the
  elements of \<open>array\<close>; the loop then writes to \<open>shuffled\<close> only.
\<close>

type_synonym 'a store = "'a list list"

definition spread_copy :: "nat \<Rightarrow> 'a store \<Rightarrow> nat \<times> 'a store" where
  "spread_copy array h = (length h, h @ [h ! array])"

definition swap_in :: "nat \<Rightarrow> nat \<Rightarrow> nat \<Rightarrow> 'a store \<Rightarrow> 'a store" where
  "swap_in shuffled i j h = h[shuffled := swap i j (h ! shuffled)]"

fun shuffle_loop_in :: "(nat \<Rightarrow> rat) \<Rightarrow> nat \<Rightarrow> nat \<Rightarrow> 'a store \<Rightarrow> 'a store" where
  "shuffle_loop_in rnd 0 shuffled h = h"
| "shuffle_loop_in rnd (Suc k) shuffled h =
     shuffle_loop_in rnd k shuffled (swap_in shuffled (Suc k) (random_index rnd (Suc k)) h)"

text \<open>The reference returned, and the store after the call.\<close>

definition shuffleArray_in :: "(nat \<Rightarrow> rat) \<Rightarrow> nat \<Rightarrow> 'a store \<Rightarrow> nat \<times> 'a store" where
  "shuffleArray_in rnd array h =
     (let (shuffled, h1) = spread_copy array h
      in (shuffled, shuffle_loop_in rnd (length (h1 ! shuffled) - 1) shuffled h1))"

section \<open>selectRandomWords\<close>

text \<open>
  \<^verbatim>\<open>selectRandomWords(words, count, difficulty = 'all')\<close>; the parameter \<^verbatim>\<open>count\<close> is a
  natural number \<open>cnt\<close> (the caller passes 20), so \<^verbatim>\<open>slice(0, count)\<close> is
  \<open>take cnt\<close>.
  \<open>eligible_words\<close> is the value of \<^verbatim>\<open>filteredWords\<close> when the shuffle is called.
\<close>

definition eligible_words :: "Word list \<Rightarrow> nat \<Rightarrow> string \<Rightarrow> Word list" where
  "eligible_words words cnt diff =
     (let filteredWords =
            (if diff \<noteq> ''all'' then filter (\<lambda>w. difficulty w = diff) words else words)
      in if length filteredWords < cnt then words else filteredWords)"

definition selectRandomWords ::
  "(nat \<Rightarrow> rat) \<Rightarrow> Word list \<Rightarrow> nat \<Rightarrow> string \<Rightarrow> Word list" where
  "selectRandomWords rnd words cnt diff =
     take cnt (shuffleArray rnd (eligible_words words cnt diff))"

section \<open>Multiple-choice options\<close>

text \<open>
  \<^verbatim>\<open>generateWrongAnswers(correctWord, allWords, count = 3)\<close>: the candidates are the
  items whose \<^verbatim>\<open>word\<close> differs from the correct item's; they are shuffled, the first
  \<open>cnt\<close> are kept and mapped to their meanings.
\<close>

definition wrongWords :: "Word \<Rightarrow> Word list \<Rightarrow> Word list" where
  "wrongWords correctWord allWords = filter (\<lambda>w. word w \<noteq> word correctWord) allWords"

definition generateWrongAnswers ::
  "(nat \<Rightarrow> rat) \<Rightarrow> Word \<Rightarrow> Word list \<Rightarrow> nat \<Rightarrow> string list" where
  "generateWrongAnswers rnd correctWord allWords cnt =
     map meaning (take cnt (shuffleArray rnd (wrongWords correctWord allWords)))"

text \<open>
  \<^verbatim>\<open>createMultipleChoiceOptions(correctWord, allWords)\<close> calls
  \<^verbatim>\<open>generateWrongAnswers\<close> with the default count 3 and shuffles
  \<^verbatim>\<open>[correctWord.meaning, ...wrongAnswers]\<close>. The two shuffles draw their own random
  numbers, \<open>rnd1\<close> and \<open>rnd2\<close>.
\<close>

definition createMultipleChoiceOptions ::
  "(nat \<Rightarrow> rat) \<Rightarrow> (nat \<Rightarrow> rat) \<Rightarrow> Word \<Rightarrow> Word list \<Rightarrow> string list" where
  "createMultipleChoiceOptions rnd1 rnd2 correctWord allWords =
     (let wrongAnswers = generateWrongAnswers rnd1 correctWord allWords 3;
          allOptions = meaning correctWord # wrongAnswers
      in shuffleArray rnd2 allOptions)"

section \<open>useLocalStorage\<close>

text \<open>
  What the browser decides for the hook: whether \<^verbatim>\<open>window\<close> exists, what
  \<^verbatim>\<open>JSON.stringify\<close> and \<^verbatim>\<open>JSON.parse\<close> return (\<open>None\<close> when they throw), and
  which calls of the storage API throw. Every \<^verbatim>\<open>catch\<close> of the hook logs and goes on.
\<close>

record 'a platform =
  has_window :: bool
  JSON_stringify :: "'a \<Rightarrow> string option"
  JSON_parse :: "string \<Rightarrow> 'a option"
  getItem_throws :: "string \<Rightarrow> bool"
  setItem_throws :: "string \<Rightarrow> string \<Rightarrow> bool"
  removeItem_throws :: "string \<Rightarrow> bool"

text \<open>The hook's React state \<^verbatim>\<open>storedValue\<close> and the contents of \<^verbatim>\<open>window.localStorage\<close>.\<close>

record 'a hook =
  storedValue :: 'a
  localStorage :: "string \<rightharpoonup> string"

text \<open>
  The initialiser of \<^verbatim>\<open>useState\<close>: what \<^verbatim>\<open>storedValue\<close> is when the hook is mounted
  (after a page load) on storage contents \<open>ls\<close>. \<^verbatim>\<open>item ? JSON.parse(item) : initialValue\<close>
  takes the initial value for a missing key and for the empty string.
\<close>

definition load_storedValue ::
  "'a platform \<Rightarrow> string \<Rightarrow> 'a \<Rightarrow> (string \<rightharpoonup> string) \<Rightarrow> 'a" where
  "load_storedValue pf key initialValue ls =
     (if \<not> has_window pf then initialValue
      else if getItem_throws pf key then initialValue
      else (case ls key of
              None \<Rightarrow> initialValue
            | Some item \<Rightarrow>
                if item = [] then initialValue
                else (case JSON_parse pf item of
                        None \<Rightarrow> initialValue
                      | Some v \<Rightarrow> v)))"

definition useLocalStorage ::
  "'a platform \<Rightarrow> string \<Rightarrow> 'a \<Rightarrow> (string \<rightharpoonup> string) \<Rightarrow> 'a hook" where
  "useLocalStorage pf key initialValue ls =
     \<lparr>storedValue = load_storedValue pf key initialValue ls, localStorage = ls\<rparr>"

text \<open>
  \<^verbatim>\<open>setValue(value)\<close> with a value (the callers in this repository never pass a
  function): the React state is set first, then the storage is written inside the
  \<^verbatim>\<open>try\<close>.
\<close>

definition setValue :: "'a platform \<Rightarrow> string \<Rightarrow> 'a \<Rightarrow> 'a hook \<Rightarrow> 'a hook" where
  "setValue pf key v h =
     \<lparr>storedValue = v,
      localStorage =
        (if has_window pf then
           (case JSON_stringify pf v of
              None \<Rightarrow> localStorage h
            | Some str \<Rightarrow>
                if setItem_throws pf key str then localStorage h
                else (localStorage h)(key \<mapsto> str))
         else localStorage h)\<rparr>"

definition removeValue :: "'a platform \<Rightarrow> string \<Rightarrow> 'a \<Rightarrow> 'a hook \<Rightarrow> 'a hook" where
  "removeValue pf key initialValue h =
     \<lparr>storedValue = initialValue,
      localStorage =
        (if has_window pf \<and> \<not> removeItem_throws pf key then (localStorage h)(key := None)
         else localStorage h)\<rparr>"

section \<open>useTestState\<close>

record Answer =
  questionIndex :: nat
  selectedAnswer :: string
  correct :: bool

record TestState =
  currentQuestionIndex :: nat
  score :: nat
  selectedWords :: "Word list"
  answers :: "Answer list"
  startTime :: int

text \<open>\<^verbatim>\<open>Partial<TestState>\<close>: every field may be absent.\<close>

record TestStateUpdates =
  set_currentQuestionIndex :: "nat option"
  set_score :: "nat option"
  set_selectedWords :: "Word list option"
  set_answers :: "Answer list option"
  set_startTime :: "int option"

definition no_updates :: TestStateUpdates where
  "no_updates = \<lparr>set_currentQuestionIndex = None, set_score = None,
     set_selectedWords = None, set_answers = None, set_startTime = None\<rparr>"

text \<open>\<^verbatim>\<open>{ ...testState, ...updates }\<close>\<close>

definition spread_updates :: "TestState \<Rightarrow> TestStateUpdates \<Rightarrow> TestState" where
  "spread_updates ts u =
     \<lparr>currentQuestionIndex =
        (case set_currentQuestionIndex u of None \<Rightarrow> currentQuestionIndex ts | Some v \<Rightarrow> v),
      score = (case set_score u of None \<Rightarrow> score ts | Some v \<Rightarrow> v),
      selectedWords = (case set_selectedWords u of None \<Rightarrow> selectedWords ts | Some v \<Rightarrow> v),
      answers = (case set_answers u of None \<Rightarrow> answers ts | Some v \<Rightarrow> v),
      startTime = (case set_startTime u of None \<Rightarrow> startTime ts | Some v \<Rightarrow> v)\<rparr>"

text \<open>
  \<^verbatim>\<open>useLocalStorage<TestState | null>('vocabtest-state', null)\<close>: the session is
  \<open>None\<close> for \<^verbatim>\<open>null\<close>.
\<close>

definition state_key :: string where
  "state_key = ''vocabtest-state''"

definition useTestState ::
  "TestState option platform \<Rightarrow> (string \<rightharpoonup> string) \<Rightarrow> TestState option hook" where
  "useTestState pf ls = useLocalStorage pf state_key None ls"

text \<open>\<^verbatim>\<open>initializeTest(words)\<close>; \<open>now\<close> is the value of \<^verbatim>\<open>Date.now()\<close>.\<close>

definition initializeTest ::
  "TestState option platform \<Rightarrow> Word list \<Rightarrow> int \<Rightarrow> TestState option hook
   \<Rightarrow> TestState option hook" where
  "initializeTest pf ws now h =
     (let newTestState = \<lparr>currentQuestionIndex = 0, score = 0, selectedWords = ws,
                           answers = [], startTime = now\<rparr>
      in setValue pf state_key (Some newTestState) h)"

definition updateTestState ::
  "TestState option platform \<Rightarrow> TestStateUpdates \<Rightarrow> TestState option hook
   \<Rightarrow> TestState option hook" where
  "updateTestState pf updates h =
     (case storedValue h of
        None \<Rightarrow> h
      | Some testState \<Rightarrow> setValue pf state_key (Some (spread_updates testState updates)) h)"

text \<open>\<^verbatim>\<open>Array.prototype.findIndex\<close>: the first position whose element satisfies the
  predicate, \<open>-1\<close> when there is none.\<close>

fun findIndex :: "('a \<Rightarrow> bool) \<Rightarrow> 'a list \<Rightarrow> int" where
  "findIndex P [] = -1"
| "findIndex P (x # xs) =
     (if P x then 0 else (let r = findIndex P xs in if r < 0 then -1 else r + 1))"

text \<open>
  The local \<^verbatim>\<open>updatedAnswers\<close> of \<^verbatim>\<open>recordAnswer\<close> after the
  \<^verbatim>\<open>if (existingIndex >= 0) ... else ...\<close>: a copy of the recorded answers in which
  the new answer replaces the first one for the same question, or is pushed at the end.
\<close>

definition updatedAnswers :: "nat \<Rightarrow> string \<Rightarrow> bool \<Rightarrow> Answer list \<Rightarrow> Answer list" where
  "updatedAnswers qi sel ok as =
     (let newAnswer = \<lparr>questionIndex = qi, selectedAnswer = sel, correct = ok\<rparr>;
          existingIndex = findIndex (\<lambda>a. questionIndex a = qi) as
      in if existingIndex \<ge> 0 then as[nat existingIndex := newAnswer] else as @ [newAnswer])"

definition recordAnswer ::
  "TestState option platform \<Rightarrow> nat \<Rightarrow> string \<Rightarrow> bool \<Rightarrow> TestState option hook
   \<Rightarrow> TestState option hook" where
  "recordAnswer pf qi sel ok h =
     (case storedValue h of
        None \<Rightarrow> h
      | Some testState \<Rightarrow>
          updateTestState pf
            (no_updates\<lparr>set_answers := Some (updatedAnswers qi sel ok (answers testState)),
               set_score := Some (if ok then score testState + 1 else score testState)\<rparr>)
            h)"

text \<open>
  \<^verbatim>\<open>currentQuestionIndex < selectedWords.length - 1\<close> is compared over the integers:
  for an empty list the right-hand side is \<open>-1\<close>.
\<close>

definition nextQuestion ::
  "TestState option platform \<Rightarrow> TestState option hook \<Rightarrow> TestState option hook" where
  "nextQuestion pf h =
     (case storedValue h of
        None \<Rightarrow> h
      | Some testState \<Rightarrow>
          if int (currentQuestionIndex testState) < int (length (selectedWords testState)) - 1
          then updateTestState pf
                 (no_updates\<lparr>set_currentQuestionIndex :=
                    Some (currentQuestionIndex testState + 1)\<rparr>) h
          else h)"

definition resetTest ::
  "TestState option platform \<Rightarrow> TestState option hook \<Rightarrow> TestState option hook" where
  "resetTest pf h = removeValue pf state_key None h"

text \<open>
  The sessions of the state machine: what \<^verbatim>\<open>initializeTest\<close> creates and what
  \<^verbatim>\<open>recordAnswer\<close> and \<^verbatim>\<open>nextQuestion\<close> make of a session.
\<close>

inductive initialized ::
  "TestState option platform \<Rightarrow> TestState option hook \<Rightarrow> bool" for pf where
  init: "initialized pf (initializeTest pf ws now h)"
| answer: "initialized pf h \<Longrightarrow> initialized pf (recordAnswer pf qi sel ok h)"
| advance: "initialized pf h \<Longrightarrow> initialized pf (nextQuestion pf h)"

section \<open>Numbers of the statistics (hooks/useTestResults.ts)\<close>

text \<open>
  The quotients of \<^verbatim>\<open>updateUserStats\<close> are JavaScript numbers: IEEE 754 doubles.
  A finite double is the rational it stands for; the result of a division or
  multiplication is the exact result rounded to the nearest double, ties to the even
  significand (\<open>round_double\<close>: 53 significant bits, exponents from \<open>-1022\<close>,
  below that the fixed step \<open>2^-1074\<close> of the subnormal numbers, and an infinity
  when the rounded value reaches \<open>2^1024\<close>). A division by zero gives \<^verbatim>\<open>NaN\<close> or an infinity, and these stay
  what they are when multiplied by 100. The counts themselves are integers of 32-bit
  columns, which doubles hold exactly, as they do their sums.
\<close>

datatype number = Num rat | NaN | PosInfinity | NegInfinity

definition pow2 :: "int \<Rightarrow> rat" where
  "pow2 k = (if 0 \<le> k then 2 ^ nat k else 1 / 2 ^ nat (- k))"

text \<open>The number of binary digits of a positive integer.\<close>

function bit_length :: "int \<Rightarrow> int" where
  "bit_length n = (if n \<le> 0 then 0 else 1 + bit_length (n div 2))"
  by pat_completeness auto
termination
  by (relation "measure nat") auto

declare bit_length.simps [simp del]

text \<open>The binary exponent of \<open>x \<noteq> 0\<close>: the \<open>e\<close> with \<open>2^e \<le> |x| < 2^(e+1)\<close>.\<close>

definition exponent :: "rat \<Rightarrow> int" where
  "exponent x =
     (let (p, q) = quotient_of \<bar>x\<bar>;
          d = bit_length p - bit_length q
      in if pow2 d \<le> \<bar>x\<bar> then d else d - 1)"

definition round_half_even :: "rat \<Rightarrow> int" where
  "round_half_even x =
     (let f = \<lfloor>x\<rfloor>; r = x - of_int f
      in if r < 1 / 2 then f
         else if 1 / 2 < r then f + 1
         else if even f then f else f + 1)"

definition round_double :: "rat \<Rightarrow> number" where
  "round_double x =
     (if x = 0 then Num 0
      else
        (let e = max (exponent x) (- 1022);
             quantum = pow2 (e - 52);
             m = round_half_even (x / quantum)
         in if 1024 \<le> e \<or> (e = 1023 \<and> 2 ^ 53 \<le> \<bar>m\<bar>)
            then (if 0 < x then PosInfinity else NegInfinity)
            else Num (of_int m * quantum)))"

text \<open>The JavaScript number of an integer, \<^verbatim>\<open>a / b\<close> and \<^verbatim>\<open>x * 100\<close>.\<close>

definition js_number :: "int \<Rightarrow> number" where
  "js_number n = round_double (of_int n)"

definition js_divide :: "int \<Rightarrow> int \<Rightarrow> number" where
  "js_divide a b =
     (if b \<noteq> 0 then round_double (of_int a / of_int b)
      else if a = 0 then NaN
      else if 0 < a then PosInfinity else NegInfinity)"

fun times_100 :: "number \<Rightarrow> number" where
  "times_100 (Num r) = round_double (r * 100)"
| "times_100 NaN = NaN"
| "times_100 PosInfinity = PosInfinity"
| "times_100 NegInfinity = NegInfinity"

text \<open>\<^verbatim>\<open>Math.round\<close> rounds to the nearest integer, a half upwards.\<close>

definition Math_round :: "rat \<Rightarrow> int" where
  "Math_round x = \<lfloor>x + 1 / 2\<rfloor>"

section \<open>The tables\<close>

text \<open>
  A row of \<^verbatim>\<open>test_results\<close> and a row of \<^verbatim>\<open>user_stats\<close>, with the columns of
  final_database_setup.sql that the hooks read or write (the key and the timestamps of
  \<^verbatim>\<open>user_stats\<close> are left out). The creation time is a number, larger for later.
\<close>

record test_result =
  tr_id :: nat
  tr_user_id :: string
  tr_score :: int
  tr_total_questions :: int
  tr_difficulty :: string
  tr_time_taken :: int
  tr_answers :: "Answer list"
  tr_created_at :: nat

record user_stats =
  us_user_id :: string
  us_total_tests :: int
  us_total_questions :: int
  us_correct_answers :: int
  us_accuracy_percentage :: number
  us_average_score :: number
  us_best_score :: int

text \<open>
  The requests a hook sends, in the order it sends them, are kept with the tables, so
  that a statement can say which requests a call made. A write to \<^verbatim>\<open>user_stats\<close>
  carries the column values the hook sends.
\<close>

datatype request =
  Insert_test_results | Select_user_stats | Update_user_stats user_stats
  | Insert_user_stats user_stats | Select_test_results | Delete_test_results

record database =
  test_results :: "test_result list"
  user_stats_table :: "user_stats list"
  requests :: "request list"

text \<open>
  What the backend does with a request: it carries the request out (\<open>Done\<close>), answers
  with an \<^verbatim>\<open>error\<close> and changes nothing (\<open>Failed\<close>), or the awaited call throws
  (\<open>Thrown\<close>). The backend also sets the creation time of an inserted row, and it
  decides what a \<^verbatim>\<open>DECIMAL(5,2)\<close> column keeps of a number sent to it
  (\<open>decimal_5_2\<close>): the database's conversion is not code of the hooks.
\<close>

datatype outcome = Done | Failed | Thrown

record backend =
  on_insert_result :: outcome
  on_select_stats :: outcome
  on_write_stats :: outcome
  on_select_results :: outcome
  on_delete_results :: outcome
  now :: nat
  decimal_5_2 :: "number \<Rightarrow> number"

definition sent :: "request \<Rightarrow> database \<Rightarrow> database" where
  "sent r db = db\<lparr>requests := requests db @ [r]\<rparr>"

text \<open>The row the table holds when the hook has sent the column values \<open>v\<close>.\<close>

definition stored_stats :: "backend \<Rightarrow> user_stats \<Rightarrow> user_stats" where
  "stored_stats be v =
     v\<lparr>us_accuracy_percentage := decimal_5_2 be (us_accuracy_percentage v),
       us_average_score := decimal_5_2 be (us_average_score v)\<rparr>"

text \<open>The key of a new row (\<^verbatim>\<open>DEFAULT gen_random_uuid()\<close>) is one no row of the table has.\<close>

definition fresh_id :: "test_result list \<Rightarrow> nat" where
  "fresh_id rows = Suc (fold max (map tr_id rows) 0)"

text \<open>\<^verbatim>\<open>.eq('user_id', user.id).single()\<close>: the row when exactly one matches, otherwise
  no data.\<close>

definition single_stats :: "string \<Rightarrow> user_stats list \<Rightarrow> user_stats option" where
  "single_stats u rows =
     (case filter (\<lambda>r. us_user_id r = u) rows of [r] \<Rightarrow> Some r | _ \<Rightarrow> None)"

text \<open>\<^verbatim>\<open>.eq('user_id', user.id).order('created_at', { ascending: false })\<close>\<close>

definition newest_first :: "string \<Rightarrow> test_result list \<Rightarrow> test_result list" where
  "newest_first u rows = rev (sort_key tr_created_at (filter (\<lambda>r. tr_user_id r = u) rows))"

section \<open>updateUserStats\<close>

text \<open>
  The column values that \<^verbatim>\<open>updateUserStats\<close> sends for user \<open>u\<close>: those of the
  \<^verbatim>\<open>update\<close> when \<^verbatim>\<open>currentStats\<close> is there, those of the \<^verbatim>\<open>insert\<close> when not
  (\<^verbatim>\<open>average_score: correctAnswers\<close> there is the session's score as a number).
\<close>

definition written_stats :: "string \<Rightarrow> user_stats option \<Rightarrow> TestState \<Rightarrow> user_stats" where
  "written_stats u currentStats testState =
     (let totalQuestions = int (length (selectedWords testState));
          correctAnswers = int (score testState)
      in case currentStats of
           Some cs \<Rightarrow>
             (let newTotalTests = us_total_tests cs + 1;
                  newTotalQuestions = us_total_questions cs + totalQuestions;
                  newCorrectAnswers = us_correct_answers cs + correctAnswers;
                  newAccuracy = times_100 (js_divide newCorrectAnswers newTotalQuestions);
                  newAverageScore = js_divide newCorrectAnswers newTotalTests;
                  newBestScore = max (us_best_score cs) correctAnswers
              in \<lparr>us_user_id = u, us_total_tests = newTotalTests,
                   us_total_questions = newTotalQuestions,
                   us_correct_answers = newCorrectAnswers,
                   us_accuracy_percentage = newAccuracy,
                   us_average_score = newAverageScore,
                   us_best_score = newBestScore\<rparr>)
         | None \<Rightarrow>
             (let accuracy = times_100 (js_divide correctAnswers totalQuestions)
              in \<lparr>us_user_id = u, us_total_tests = 1,
                   us_total_questions = totalQuestions,
                   us_correct_answers = correctAnswers,
                   us_accuracy_percentage = accuracy,
                   us_average_score = js_number correctAnswers,
                   us_best_score = correctAnswers\<rparr>))"

text \<open>
  \<^verbatim>\<open>updateUserStats(testState)\<close> for the signed-in user (\<open>None\<close>: nobody is signed
  in). The \<^verbatim>\<open>error\<close> of the select is not read: a failed select leaves
  \<^verbatim>\<open>currentStats\<close> empty. The results of the two writes are not read either. An
  insert is refused by the \<^verbatim>\<open>UNIQUE\<close> constraint when the user has a row.
\<close>

definition updateUserStats ::
  "backend \<Rightarrow> string option \<Rightarrow> TestState option \<Rightarrow> database \<Rightarrow> database" where
  "updateUserStats be user testState db =
     (case (user, testState) of
        (Some u, Some ts) \<Rightarrow>
          (let db1 = sent Select_user_stats db in
           if on_select_stats be = Thrown then db1
           else
             (let currentStats =
                    (if on_select_stats be = Done then single_stats u (user_stats_table db1)
                     else None)
              in case currentStats of
                   Some cs \<Rightarrow>
                     (let values = written_stats u (Some cs) ts;
                          db2 = sent (Update_user_stats values) db1
                      in if on_write_stats be = Done then
                           db2\<lparr>user_stats_table :=
                                 map (\<lambda>r. if us_user_id r = u then stored_stats be values else r)
                                   (user_stats_table db2)\<rparr>
                         else db2)
                 | None \<Rightarrow>
                     (let values = written_stats u None ts;
                          db2 = sent (Insert_user_stats values) db1
                      in if on_write_stats be = Done
                            \<and> filter (\<lambda>r. us_user_id r = u) (user_stats_table db2) = []
                         then db2\<lparr>user_stats_table :=
                                    user_stats_table db2 @ [stored_stats be values]\<rparr>
                         else db2)))
      | _ \<Rightarrow> db)"

text \<open>
  The aggregation as section 4.4 of the specification words it, to be compared with
  what \<^verbatim>\<open>updateUserStats\<close> sends: one set of formulas, applied to the prior record,
  and a missing record counts as a record of zeros. Its \<open>/\<close> and \<open>* 100\<close> are those
  of the code, on doubles.
\<close>

definition zero_stats :: "string \<Rightarrow> user_stats" where
  "zero_stats u = \<lparr>us_user_id = u, us_total_tests = 0, us_total_questions = 0,
     us_correct_answers = 0, us_accuracy_percentage = Num 0, us_average_score = Num 0,
     us_best_score = 0\<rparr>"

definition aggregate_spec :: "string \<Rightarrow> user_stats option \<Rightarrow> TestState \<Rightarrow> user_stats" where
  "aggregate_spec u prior session =
     (let p = (case prior of None \<Rightarrow> zero_stats u | Some r \<Rightarrow> r);
          totalTests = us_total_tests p + 1;
          totalQuestions = us_total_questions p + int (length (selectedWords session));
          correctAnswers = us_correct_answers p + int (score session)
      in \<lparr>us_user_id = u, us_total_tests = totalTests,
           us_total_questions = totalQuestions,
           us_correct_answers = correctAnswers,
           us_accuracy_percentage = times_100 (js_divide correctAnswers totalQuestions),
           us_average_score = js_divide correctAnswers totalTests,
           us_best_score = max (us_best_score p) (int (score session))\<rparr>)"

section \<open>cleanupOldTests and saveTestResult\<close>

text \<open>
  \<^verbatim>\<open>cleanupOldTests()\<close> of the unnamed hook file: the boolean it returns and the
  database after it. \<^verbatim>\<open>.delete().in('id', idsToDelete)\<close> removes every row whose key
  is listed.
\<close>

definition cleanupOldTests :: "backend \<Rightarrow> string option \<Rightarrow> database \<Rightarrow> bool \<times> database" where
  "cleanupOldTests be user db =
     (case user of
        None \<Rightarrow> (False, db)
      | Some u \<Rightarrow>
          (let db1 = sent Select_test_results db in
           if on_select_results be \<noteq> Done then (False, db1)
           else
             (let allTests = newest_first u (test_results db1) in
              if length allTests > 20 then
                (let testsToDelete = drop 20 allTests;
                     idsToDelete = map tr_id testsToDelete;
                     db2 = sent Delete_test_results db1
                 in if on_delete_results be \<noteq> Done then (False, db2)
                    else (True, db2\<lparr>test_results :=
                                       filter (\<lambda>r. tr_id r \<notin> set idsToDelete)
                                         (test_results db2)\<rparr>))
              else (True, db1))))"

text \<open>
  The insert of \<^verbatim>\<open>saveTestResult\<close>, the same in both hook files: the row sent, with
  the key and the creation time the database gives it.
\<close>

definition new_test_result ::
  "backend \<Rightarrow> string \<Rightarrow> TestState \<Rightarrow> string \<Rightarrow> int \<Rightarrow> database \<Rightarrow> test_result" where
  "new_test_result be u ts diff endTime db =
     (let timeTaken = Math_round (of_int (endTime - startTime ts) / 1000)
      in \<lparr>tr_id = fresh_id (test_results db), tr_user_id = u, tr_score = int (score ts),
           tr_total_questions = int (length (selectedWords ts)), tr_difficulty = diff,
           tr_time_taken = timeTaken, tr_answers = answers ts, tr_created_at = now be\<rparr>)"

text \<open>
  \<^verbatim>\<open>saveTestResult(testState, difficulty, endTime)\<close> of the unnamed hook file, which
  ends with \<^verbatim>\<open>await cleanupOldTests()\<close>: the value returned (\<open>None\<close> for
  \<^verbatim>\<open>null\<close>) and the database after the call.
\<close>

definition saveTestResult ::
  "backend \<Rightarrow> string option \<Rightarrow> TestState option \<Rightarrow> string \<Rightarrow> int \<Rightarrow> database
   \<Rightarrow> test_result option \<times> database" where
  "saveTestResult be user testState diff endTime db =
     (case (user, testState) of
        (Some u, Some ts) \<Rightarrow>
          (let testResult = new_test_result be u ts diff endTime db;
               db1 = sent Insert_test_results db
           in if on_insert_result be \<noteq> Done then (None, db1)
              else
                (let db2 = db1\<lparr>test_results := test_results db1 @ [testResult]\<rparr>;
                     db3 = updateUserStats be user testState db2;
                     db4 = snd (cleanupOldTests be user db3)
                 in (Some testResult, db4)))
      | _ \<Rightarrow> (None, db))"

text \<open>
  \<^verbatim>\<open>saveTestResult\<close> of src/app/hooks/useTestResults.ts, the file the result page
  imports: it returns after \<^verbatim>\<open>await updateUserStats(testState)\<close>.
\<close>

definition saveTestResult_app ::
  "backend \<Rightarrow> string option \<Rightarrow> TestState option \<Rightarrow> string \<Rightarrow> int \<Rightarrow> database
   \<Rightarrow> test_result option \<times> database" where
  "saveTestResult_app be user testState diff endTime db =
     (case (user, testState) of
        (Some u, Some ts) \<Rightarrow>
          (let testResult = new_test_result be u ts diff endTime db;
               db1 = sent Insert_test_results db
           in if on_insert_result be \<noteq> Done then (None, db1)
              else
                (let db2 = db1\<lparr>test_results := test_results db1 @ [testResult]\<rparr>;
                     db3 = updateUserStats be user testState db2
                 in (Some testResult, db3)))
      | _ \<Rightarrow> (None, db))"

section \<open>A browser for the hook\<close>

text \<open>
  \<^verbatim>\<open>JSON.stringify\<close> and \<^verbatim>\<open>JSON.parse\<close> belong to the browser, not to the
  repository. For concrete runs of the hook here is a browser whose storage never throws
  and whose JSON functions write and read sessions: objects with the keys of
  \<^verbatim>\<open>TestState\<close> in the order \<^verbatim>\<open>initializeTest\<close> creates them, numbers in decimal,
  strings with the escapes of \<^verbatim>\<open>JSON.stringify\<close>, \<^verbatim>\<open>null\<close> for no session. The
  reader takes no white space and no other key order; text it cannot read makes it throw.
\<close>

definition quote :: char where
  "quote = CHR 0x22"

definition backslash :: char where
  "backslash = CHR 0x5C"

definition hex_digit :: "nat \<Rightarrow> char" where
  "hex_digit d = (if d < 10 then char_of (48 + d) else char_of (87 + d))"

definition hex_value :: "char \<Rightarrow> nat option" where
  "hex_value c =
     (let n = of_char c :: nat
      in if 48 \<le> n \<and> n \<le> 57 then Some (n - 48)
         else if 97 \<le> n \<and> n \<le> 102 then Some (n - 87)
         else if 65 \<le> n \<and> n \<le> 70 then Some (n - 55)
         else None)"

definition escape :: "char \<Rightarrow> string" where
  "escape c =
     (if c = quote then [backslash, quote]
      else if c = backslash then [backslash, backslash]
      else if c = CHR 0x08 then [backslash, CHR ''b'']
      else if c = CHR 0x0C then [backslash, CHR ''f'']
      else if c = CHR 0x0A then [backslash, CHR ''n'']
      else if c = CHR 0x0D then [backslash, CHR ''r'']
      else if c = CHR 0x09 then [backslash, CHR ''t'']
      else if (of_char c :: nat) < 32
        then [backslash, CHR ''u'', CHR ''0'', CHR ''0'',
              hex_digit ((of_char c :: nat) div 16), hex_digit ((of_char c :: nat) mod 16)]
      else [c])"

definition print_string :: "string \<Rightarrow> string" where
  "print_string s = quote # concat (map escape s) @ [quote]"

function digits :: "int \<Rightarrow> string" where
  "digits n = (if n < 10 then [char_of (48 + n)] else digits (n div 10) @ [char_of (48 + n mod 10)])"
  by pat_completeness auto
termination
  by (relation "measure nat") auto

declare digits.simps [simp del]

definition print_int :: "int \<Rightarrow> string" where
  "print_int i = (if i < 0 then CHR ''-'' # digits (- i) else digits i)"

definition print_nat :: "nat \<Rightarrow> string" where
  "print_nat n = digits (int n)"

definition print_bool :: "bool \<Rightarrow> string" where
  "print_bool b = (if b then ''true'' else ''false'')"

fun separated :: "string list \<Rightarrow> string" where
  "separated [] = []"
| "separated [x] = x"
| "separated (x # y # ys) = x @ CHR '','' # separated (y # ys)"

definition print_array :: "('a \<Rightarrow> string) \<Rightarrow> 'a list \<Rightarrow> string" where
  "print_array p xs = CHR ''['' # separated (map p xs) @ '']''"

definition print_key :: "string \<Rightarrow> string" where
  "print_key k = print_string k @ '':''"

definition print_Word :: "Word \<Rightarrow> string" where
  "print_Word w =
     CHR ''{'' # print_key ''word'' @ print_string (word w) @ CHR '','' #
     print_key ''meaning'' @ print_string (meaning w) @ CHR '','' #
     print_key ''example'' @ print_string (example w) @ CHR '','' #
     print_key ''difficulty'' @ print_string (difficulty w) @ ''}''"

definition print_Answer :: "Answer \<Rightarrow> string" where
  "print_Answer a =
     CHR ''{'' # print_key ''questionIndex'' @ print_nat (questionIndex a) @ CHR '','' #
     print_key ''selectedAnswer'' @ print_string (selectedAnswer a) @ CHR '','' #
     print_key ''correct'' @ print_bool (correct a) @ ''}''"

definition print_TestState :: "TestState \<Rightarrow> string" where
  "print_TestState ts =
     CHR ''{'' # print_key ''currentQuestionIndex'' @ print_nat (currentQuestionIndex ts) @ CHR '','' #
     print_key ''score'' @ print_nat (score ts) @ CHR '','' #
     print_key ''selectedWords'' @ print_array print_Word (selectedWords ts) @ CHR '','' #
     print_key ''answers'' @ print_array print_Answer (answers ts) @ CHR '','' #
     print_key ''startTime'' @ print_int (startTime ts) @ ''}''"

definition stringify_session :: "TestState option \<Rightarrow> string option" where
  "stringify_session v = Some (case v of None \<Rightarrow> ''null'' | Some ts \<Rightarrow> print_TestState ts)"

type_synonym 'a parser = "string \<Rightarrow> ('a \<times> string) option"

definition expect :: "string \<Rightarrow> unit parser" where
  "expect lit s = (if take (length lit) s = lit then Some ((), drop (length lit) s) else None)"

definition is_digit :: "char \<Rightarrow> bool" where
  "is_digit c \<longleftrightarrow> 48 \<le> (of_char c :: nat) \<and> (of_char c :: nat) \<le> 57"

definition parse_digits :: "int parser" where
  "parse_digits s =
     (let ds = takeWhile is_digit s
      in if ds = [] then None
         else Some (foldl (\<lambda>n c. 10 * n + (of_char c - 48)) 0 ds, dropWhile is_digit s))"

text \<open>A text that does not go on with a digit: what may follow a number.\<close>

definition no_digit_ahead :: "string \<Rightarrow> bool" where
  "no_digit_ahead r \<longleftrightarrow> (case r of [] \<Rightarrow> True | c # _ \<Rightarrow> \<not> is_digit c)"

definition parse_nat :: "nat parser" where
  "parse_nat s = map_option (\<lambda>(n, r). (nat n, r)) (parse_digits s)"

definition parse_int :: "int parser" where
  "parse_int s =
     (case s of
        [] \<Rightarrow> None
      | c # cs \<Rightarrow>
          if c = CHR ''-'' then map_option (\<lambda>(n, r). (- n, r)) (parse_digits cs)
          else parse_digits s)"

definition parse_bool :: "bool parser" where
  "parse_bool s =
     (case expect ''true'' s of
        Some (_, r) \<Rightarrow> Some (True, r)
      | None \<Rightarrow> map_option (\<lambda>(_, r). (False, r)) (expect ''false'' s))"

definition unescape :: "char \<Rightarrow> char option" where
  "unescape e =
     (if e = quote \<or> e = backslash \<or> e = CHR ''/'' then Some e
      else if e = CHR ''b'' then Some (CHR 0x08)
      else if e = CHR ''f'' then Some (CHR 0x0C)
      else if e = CHR ''n'' then Some (CHR 0x0A)
      else if e = CHR ''r'' then Some (CHR 0x0D)
      else if e = CHR ''t'' then Some (CHR 0x09)
      else None)"

definition unicode_escape :: "char \<Rightarrow> char \<Rightarrow> char \<Rightarrow> char \<Rightarrow> char option" where
  "unicode_escape a b c d =
     (case (hex_value a, hex_value b, hex_value c, hex_value d) of
        (Some 0, Some 0, Some h, Some l) \<Rightarrow> Some (char_of (16 * h + l))
      | _ \<Rightarrow> None)"

fun string_body :: "string parser" where
  "string_body [] = None"
| "string_body (c # cs) =
     (if c = quote then Some ([], cs)
      else if c = backslash then
        (case cs of
           e # cs1 \<Rightarrow>
             (if e = CHR ''u'' then
                (case cs1 of
                   a # b # h # l # cs2 \<Rightarrow>
                     (case unicode_escape a b h l of
                        Some x \<Rightarrow> map_option (\<lambda>(s, r). (x # s, r)) (string_body cs2)
                      | None \<Rightarrow> None)
                 | _ \<Rightarrow> None)
              else
                (case unescape e of
                   Some x \<Rightarrow> map_option (\<lambda>(s, r). (x # s, r)) (string_body cs1)
                 | None \<Rightarrow> None))
         | [] \<Rightarrow> None)
      else if (of_char c :: nat) < 32 then None
      else map_option (\<lambda>(s, r). (c # s, r)) (string_body cs))"

definition parse_string :: "string parser" where
  "parse_string s = (case s of c # cs \<Rightarrow> if c = quote then string_body cs else None | [] \<Rightarrow> None)"

fun elements :: "nat \<Rightarrow> 'a parser \<Rightarrow> 'a list parser" where
  "elements 0 p s = None"
| "elements (Suc n) p s =
     (case p s of
        None \<Rightarrow> None
      | Some (x, r) \<Rightarrow>
          (case r of
             c # r1 \<Rightarrow>
               if c = CHR '','' then map_option (\<lambda>(xs, r2). (x # xs, r2)) (elements n p r1)
               else Some ([x], r)
           | [] \<Rightarrow> Some ([x], r)))"

definition parse_array :: "'a parser \<Rightarrow> 'a list parser" where
  "parse_array p s =
     (case expect ''[]'' s of
        Some (_, r) \<Rightarrow> Some ([], r)
      | None \<Rightarrow>
          do {
            (_, r) \<leftarrow> expect ''['' s;
            (xs, r1) \<leftarrow> elements (length r) p r;
            (_, r2) \<leftarrow> expect '']'' r1;
            Some (xs, r2)
          })"

definition field :: "string \<Rightarrow> 'a parser \<Rightarrow> 'a parser" where
  "field k p s = do { (_, r) \<leftarrow> expect (print_key k) s; p r }"

definition parse_Word :: "Word parser" where
  "parse_Word s =
     do {
       (_, r0) \<leftarrow> expect ''{'' s;
       (w, r1) \<leftarrow> field ''word'' parse_string r0;
       (_, r2) \<leftarrow> expect '','' r1;
       (m, r3) \<leftarrow> field ''meaning'' parse_string r2;
       (_, r4) \<leftarrow> expect '','' r3;
       (e, r5) \<leftarrow> field ''example'' parse_string r4;
       (_, r6) \<leftarrow> expect '','' r5;
       (d, r7) \<leftarrow> field ''difficulty'' parse_string r6;
       (_, r8) \<leftarrow> expect ''}'' r7;
       Some (\<lparr>word = w, meaning = m, example = e, difficulty = d\<rparr>, r8)
     }"

definition parse_Answer :: "Answer parser" where
  "parse_Answer s =
     do {
       (_, r0) \<leftarrow> expect ''{'' s;
       (q, r1) \<leftarrow> field ''questionIndex'' parse_nat r0;
       (_, r2) \<leftarrow> expect '','' r1;
       (a, r3) \<leftarrow> field ''selectedAnswer'' parse_string r2;
       (_, r4) \<leftarrow> expect '','' r3;
       (c, r5) \<leftarrow> field ''correct'' parse_bool r4;
       (_, r6) \<leftarrow> expect ''}'' r5;
       Some (\<lparr>questionIndex = q, selectedAnswer = a, correct = c\<rparr>, r6)
     }"

definition parse_TestState :: "TestState parser" where
  "parse_TestState s =
     do {
       (_, r0) \<leftarrow> expect ''{'' s;
       (i, r1) \<leftarrow> field ''currentQuestionIndex'' parse_nat r0;
       (_, r2) \<leftarrow> expect '','' r1;
       (sc, r3) \<leftarrow> field ''score'' parse_nat r2;
       (_, r4) \<leftarrow> expect '','' r3;
       (ws, r5) \<leftarrow> field ''selectedWords'' (parse_array parse_Word) r4;
       (_, r6) \<leftarrow> expect '','' r5;
       (as, r7) \<leftarrow> field ''answers'' (parse_array parse_Answer) r6;
       (_, r8) \<leftarrow> expect '','' r7;
       (t, r9) \<leftarrow> field ''startTime'' parse_int r8;
       (_, r10) \<leftarrow> expect ''}'' r9;
       Some (\<lparr>currentQuestionIndex = i, score = sc, selectedWords = ws, answers = as,
              startTime = t\<rparr>, r10)
     }"

definition parse_session :: "string \<Rightarrow> TestState option option" where
  "parse_session s =
     (if s = ''null'' then Some None
      else (case parse_TestState s of
              Some (ts, []) \<Rightarrow> Some (Some ts)
            | _ \<Rightarrow> None))"

definition browser :: "TestState option platform" where
  "browser = \<lparr>has_window = True, JSON_stringify = stringify_session,
     JSON_parse = parse_session, getItem_throws = (\<lambda>k. False),
     setItem_throws = (\<lambda>k v. False), removeItem_throws = (\<lambda>k. False)\<rparr>"

section \<open>Sample data\<close>

text \<open>
  Random sources and a small catalogue for the concrete instances below. \<open>rnd_pick p\<close>
  makes every iteration swap a position with itself, except the one at position \<open>p\<close>,
  which swaps with position 0.
\<close>

definition rnd_pick :: "nat \<Rightarrow> nat \<Rightarrow> rat" where
  "rnd_pick p i = (if i = p then 0 else of_nat i / of_nat (i + 1))"

definition rnd_zero :: "nat \<Rightarrow> rat" where
  "rnd_zero i = 0"

definition rnd_half :: "nat \<Rightarrow> rat" where
  "rnd_half i = 1 / 2"

definition w_big :: Word where
  "w_big = \<lparr>word = ''big'', meaning = ''large'', example = ''a big house'', difficulty = ''easy''\<rparr>"

definition w_huge :: Word where
  "w_huge = \<lparr>word = ''huge'', meaning = ''large'', example = ''a huge wave'', difficulty = ''medium''\<rparr>"

definition w_brief :: Word where
  "w_brief = \<lparr>word = ''brief'', meaning = ''short'', example = ''a brief note'', difficulty = ''medium''\<rparr>"

definition w_arid :: Word where
  "w_arid = \<lparr>word = ''arid'', meaning = ''dry'', example = ''an arid plain'', difficulty = ''hard''\<rparr>"

definition w_terse :: Word where
  "w_terse = \<lparr>word = ''terse'', meaning = ''curt'', example = ''a terse reply'', difficulty = ''hard''\<rparr>"

definition sample_pool :: "Word list" where
  "sample_pool = [w_big, w_brief, w_arid, w_terse]"

text \<open>
  Backends, a database and sessions for the concrete instances: a backend that carries
  out every request and whose decimal columns round to two places, one that refuses the
  insert of the result, a finished session with
  15 of 20 answers right, a session in progress, and a user who completes \<open>n\<close> quizzes,
  with either file's \<^verbatim>\<open>saveTestResult\<close>.
\<close>

definition two_decimals :: "number \<Rightarrow> number" where
  "two_decimals x =
     (case x of
        Num r \<Rightarrow> Num (sgn r * of_int \<lfloor>\<bar>r\<bar> * 100 + 1 / 2\<rfloor> / 100)
      | _ \<Rightarrow> x)"

definition all_done :: "nat \<Rightarrow> backend" where
  "all_done t = \<lparr>on_insert_result = Done, on_select_stats = Done, on_write_stats = Done,
     on_select_results = Done, on_delete_results = Done, now = t,
     decimal_5_2 = two_decimals\<rparr>"

definition empty_database :: database where
  "empty_database = \<lparr>test_results = [], user_stats_table = [], requests = []\<rparr>"

definition session_15_of_20 :: TestState where
  "session_15_of_20 = \<lparr>currentQuestionIndex = 19, score = 15,
     selectedWords = concat (replicate 5 sample_pool), answers = [], startTime = 1000\<rparr>"

definition stats_after_one :: database where
  "stats_after_one =
     updateUserStats (all_done 1) (Some ''user-1'') (Some session_15_of_20) empty_database"

fun complete_quizzes_app :: "nat \<Rightarrow> database \<Rightarrow> database" where
  "complete_quizzes_app 0 db = db"
| "complete_quizzes_app (Suc n) db =
     snd (saveTestResult_app (all_done (Suc n)) (Some ''user-1'') (Some session_15_of_20)
            ''all'' 61000 (complete_quizzes_app n db))"

fun complete_quizzes :: "nat \<Rightarrow> database \<Rightarrow> database" where
  "complete_quizzes 0 db = db"
| "complete_quizzes (Suc n) db =
     snd (saveTestResult (all_done (Suc n)) (Some ''user-1'') (Some session_15_of_20)
            ''all'' 61000 (complete_quizzes n db))"

definition sample_session :: TestState where
  "sample_session = \<lparr>currentQuestionIndex = 1, score = 1, selectedWords = [w_arid, w_big],
     answers = [\<lparr>questionIndex = 0, selectedAnswer = ''dry'', correct = True\<rparr>],
     startTime = 1700000000000\<rparr>"

definition insert_refused :: backend where
  "insert_refused = (all_done 1)\<lparr>on_insert_result := Failed\<rparr>"

definition fresh_session :: "TestState option hook" where
  "fresh_session = initializeTest browser sample_pool 1000 (useTestState browser Map.empty)"

definition last_question :: "TestState option hook" where
  "last_question = nextQuestion browser (nextQuestion browser (nextQuestion browser fresh_session))"

section \<open>Properties of the shuffle\<close>

lemma random_index_le:
  assumes "random_source rnd"
  shows "random_index rnd i \<le> i"
proof -
  from assms have r: "0 \<le> rnd i" "rnd i < 1"
    by (simp_all add: random_source_def)
  have "rnd i * of_nat (i + 1) < of_nat (i + 1)"
    using r by (simp add: mult_less_cancel_right2 del: of_nat_add of_nat_Suc)
  then have "\<lfloor>rnd i * of_nat (i + 1)\<rfloor> < int (i + 1)"
    by (simp add: floor_less_iff del: of_nat_add of_nat_Suc)
  then show ?thesis
    by (simp add: random_index_def)
qed

lemma length_swap: "length (swap i j xs) = length xs"
  by (simp add: swap_def)

lemma mset_swap_in_range:
  "i < length xs \<Longrightarrow> j < length xs \<Longrightarrow> mset (swap i j xs) = mset xs"
  unfolding swap_def by (rule mset_swap)

lemma length_shuffle_loop: "length (shuffle_loop rnd i xs) = length xs"
  by (induction i arbitrary: xs) (simp_all add: length_swap)

lemma mset_shuffle_loop:
  assumes "random_source rnd"
  shows "i < length xs \<Longrightarrow> mset (shuffle_loop rnd i xs) = mset xs"
proof (induction i arbitrary: xs)
  case 0
  show ?case by simp
next
  case (Suc k)
  have j: "random_index rnd (Suc k) < length xs"
    using random_index_le [OF assms, of "Suc k"] Suc.prems by simp
  have "mset (shuffle_loop rnd k (swap (Suc k) (random_index rnd (Suc k)) xs))
        = mset (swap (Suc k) (random_index rnd (Suc k)) xs)"
    using Suc.prems by (intro Suc.IH) (simp add: length_swap)
  also have "\<dots> = mset xs"
    using Suc.prems j by (simp add: mset_swap_in_range)
  finally show ?case by simp
qed

lemma mset_shuffleArray:
  assumes "random_source rnd"
  shows "mset (shuffleArray rnd xs) = mset xs"
proof (cases xs)
  case Nil
  then show ?thesis by (simp add: shuffleArray_def)
next
  case (Cons x ys)
  then have "length xs - 1 < length xs" by simp
  then show ?thesis
    unfolding shuffleArray_def by (rule mset_shuffle_loop [OF assms])
qed

lemma length_shuffleArray: "length (shuffleArray rnd xs) = length xs"
  by (simp add: shuffleArray_def length_shuffle_loop)

lemma set_shuffleArray:
  "random_source rnd \<Longrightarrow> set (shuffleArray rnd xs) = set xs"
  by (rule mset_eq_setD) (rule mset_shuffleArray)

lemma distinct_shuffleArray:
  "random_source rnd \<Longrightarrow> distinct (shuffleArray rnd xs) = distinct xs"
  by (rule mset_eq_imp_distinct_iff) (rule mset_shuffleArray)

lemma swap_same: "swap i i xs = xs"
  by (simp add: swap_def)

lemma shuffle_loop_in_eq:
  "s < length h \<Longrightarrow>
   shuffle_loop_in rnd i s h = h[s := shuffle_loop rnd i (h ! s)]"
  by (induction i arbitrary: h) (simp_all add: swap_in_def)

subsection \<open>Concrete random sources\<close>

lemmas sample_defs = sample_pool_def w_big_def w_huge_def w_brief_def w_arid_def w_terse_def

lemma random_source_rnd_zero: "random_source rnd_zero"
  by (simp add: random_source_def rnd_zero_def)

lemma random_source_rnd_half: "random_source rnd_half"
  by (simp add: random_source_def rnd_half_def)

lemma random_source_rnd_pick: "random_source (rnd_pick p)"
  by (simp add: random_source_def rnd_pick_def)

lemma random_index_rnd_pick:
  "random_index (rnd_pick p) i = (if i = p then 0 else i)"
  by (simp add: random_index_def rnd_pick_def)

lemma shuffle_loop_rnd_pick:
  "shuffle_loop (rnd_pick p) k xs = (if 0 < p \<and> p \<le> k then swap p 0 xs else xs)"
  by (induction k arbitrary: xs) (auto simp: random_index_rnd_pick swap_same le_Suc_eq)

lemma shuffleArray_rnd_pick_front:
  assumes "p < length xs"
  shows "shuffleArray (rnd_pick p) xs ! 0 = xs ! p"
proof -
  from assms have "0 < length xs" by (cases xs) simp_all
  with assms show ?thesis
    by (cases "p = 0") (auto simp: shuffleArray_def shuffle_loop_rnd_pick swap_def)
qed

section \<open>shuffleArray returns a permuted copy\<close>

text \<open>
  Claim C10. For a random source within the contract of \<^verbatim>\<open>Math.random\<close> and a
  valid array reference, \<^verbatim>\<open>shuffleArray\<close> returns a reference that was not in the
  store before (a new array), leaves every array that was in the store as it was (the
  input among them), and the new array holds a permutation of the input: the same
  multiset of elements, hence the same length.
\<close>

theorem shuffleArray_permutes_copy:
  assumes "random_source rnd" and "array < length h"
  shows "fst (shuffleArray_in rnd array h) = length h
       \<and> length (snd (shuffleArray_in rnd array h)) = Suc (length h)
       \<and> (\<forall>b < length h. snd (shuffleArray_in rnd array h) ! b = h ! b)
       \<and> snd (shuffleArray_in rnd array h) ! fst (shuffleArray_in rnd array h)
           = shuffleArray rnd (h ! array)
       \<and> mset (shuffleArray rnd (h ! array)) = mset (h ! array)
       \<and> length (shuffleArray rnd (h ! array)) = length (h ! array)"
proof -
  have run: "shuffleArray_in rnd array h = (length h, h @ [shuffleArray rnd (h ! array)])"
    by (simp add: shuffleArray_in_def spread_copy_def shuffle_loop_in_eq shuffleArray_def)
  have old: "\<forall>b < length h. (h @ [shuffleArray rnd (h ! array)]) ! b = h ! b"
    by (simp add: nth_append)
  show ?thesis
    using old by (simp add: run mset_shuffleArray [OF assms(1)] length_shuffleArray)
qed

text \<open>
  The instance for the array \<open>[1, 2, 3]\<close> with every draw equal to \<open>1/2\<close>.
\<close>

theorem shuffleArray_permutes_copy_witness:
  "random_source rnd_half \<and> (0::nat) < length [ [1, 2, 3 :: nat] ]
   \<and> fst (shuffleArray_in rnd_half 0 [ [1, 2, 3 :: nat] ]) = 1
   \<and> snd (shuffleArray_in rnd_half 0 [ [1, 2, 3 :: nat] ]) ! 0 = [1, 2, 3]
   \<and> snd (shuffleArray_in rnd_half 0 [ [1, 2, 3 :: nat] ]) ! 1 = [1, 3, 2]
   \<and> mset (shuffleArray rnd_half [1, 2, 3 :: nat]) = mset [1, 2, 3]"
proof -
  have a: "(0::nat) < length [ [1, 2, 3 :: nat] ]" by simp
  have run: "shuffleArray rnd_half [1, 2, 3 :: nat] = [1, 3, 2]"
    by code_simp
  show ?thesis
    using shuffleArray_permutes_copy [OF random_source_rnd_half a] random_source_rnd_half run
    by auto
qed

section \<open>selectRandomWords\<close>

lemma eligible_words_props:
  "set (eligible_words P c d) \<subseteq> set P"
  "distinct P \<Longrightarrow> distinct (eligible_words P c d)"
  "c \<le> length P \<Longrightarrow> c \<le> length (eligible_words P c d)"
  by (auto simp: eligible_words_def Let_def)

lemma eligible_words_fallback:
  assumes "d \<noteq> ''all''" and "length (filter (\<lambda>w. difficulty w = d) P) < c"
  shows "eligible_words P c d = P"
  using assms by (simp add: eligible_words_def)

text \<open>
  Claim C2. For a pool \<open>P\<close> without duplicates and a count \<open>c \<le> |P|\<close>,
  \<^verbatim>\<open>selectRandomWords(P, c, difficulty)\<close> returns exactly \<open>c\<close> items, each of them
  an element of \<open>P\<close>, and no item twice, whatever the difficulty tag and whatever
  numbers \<^verbatim>\<open>Math.random\<close> draws.
\<close>

theorem selectRandomWords_exact:
  assumes "random_source rnd" and "c \<le> length P" and "distinct P"
  shows "length (selectRandomWords rnd P c d) = c
       \<and> set (selectRandomWords rnd P c d) \<subseteq> set P
       \<and> distinct (selectRandomWords rnd P c d)"
proof -
  let ?E = "eligible_words P c d"
  have len: "length (selectRandomWords rnd P c d) = c"
    using eligible_words_props(3) [OF assms(2), of d]
    by (simp add: selectRandomWords_def length_shuffleArray)
  have "set (selectRandomWords rnd P c d) \<subseteq> set (shuffleArray rnd ?E)"
    unfolding selectRandomWords_def by (rule set_take_subset)
  also have "\<dots> = set ?E"
    by (rule set_shuffleArray [OF assms(1)])
  also have "\<dots> \<subseteq> set P"
    by (rule eligible_words_props(1))
  finally have sub: "set (selectRandomWords rnd P c d) \<subseteq> set P" .
  have "distinct (shuffleArray rnd ?E)"
    using assms(1,3) by (simp add: distinct_shuffleArray eligible_words_props(2))
  then have dis: "distinct (selectRandomWords rnd P c d)"
    by (simp add: selectRandomWords_def)
  from len sub dis show ?thesis by simp
qed

text \<open>
  The instance for the sample catalogue, two items of difficulty \<open>hard\<close>.
\<close>

theorem selectRandomWords_exact_witness:
  "random_source rnd_half \<and> 2 \<le> length sample_pool \<and> distinct sample_pool
   \<and> length (selectRandomWords rnd_half sample_pool 2 ''hard'') = 2
   \<and> set (selectRandomWords rnd_half sample_pool 2 ''hard'') \<subseteq> set sample_pool
   \<and> distinct (selectRandomWords rnd_half sample_pool 2 ''hard'')"
proof -
  have len: "2 \<le> length sample_pool" by (simp add: sample_defs)
  have dis: "distinct sample_pool" by (simp add: sample_defs)
  show ?thesis
    using selectRandomWords_exact [OF random_source_rnd_half len dis, of "''hard''"]
      random_source_rnd_half len dis by simp
qed

text \<open>
  Claim C3. When the tag is not \<open>all\<close> and fewer than \<open>c\<close> items of the pool carry
  the tag, \<^verbatim>\<open>selectRandomWords\<close> returns the first \<open>c\<close> elements of a shuffle of the
  whole pool: the filter is dropped and not applied again. Hence every element of the
  pool can appear in the result: for each of them some run of the random source puts
  it there.
\<close>

theorem selectRandomWords_fallback:
  assumes "d \<noteq> ''all''" and "length (filter (\<lambda>w. difficulty w = d) P) < c"
  shows "(\<forall>rnd. selectRandomWords rnd P c d = take c (shuffleArray rnd P))
       \<and> (\<forall>w \<in> set P. \<exists>rnd. random_source rnd \<and> w \<in> set (selectRandomWords rnd P c d))"
proof (intro conjI ballI allI)
  fix rnd
  show "selectRandomWords rnd P c d = take c (shuffleArray rnd P)"
    by (simp add: selectRandomWords_def eligible_words_fallback [OF assms])
next
  fix w assume "w \<in> set P"
  then obtain p where p: "p < length P" "P ! p = w"
    by (auto simp: in_set_conv_nth)
  from assms(2) have c: "0 < c" by simp
  let ?ys = "shuffleArray (rnd_pick p) P"
  have front: "?ys ! 0 = w"
    using p by (simp add: shuffleArray_rnd_pick_front)
  have len: "0 < length (take c ?ys)"
    using p c by (auto simp: length_shuffleArray)
  have "take c ?ys ! 0 \<in> set (take c ?ys)"
    using len by (rule nth_mem)
  then have "w \<in> set (take c ?ys)"
    using c front by simp
  then have "w \<in> set (selectRandomWords (rnd_pick p) P c d)"
    by (simp add: selectRandomWords_def eligible_words_fallback [OF assms])
  then show "\<exists>rnd. random_source rnd \<and> w \<in> set (selectRandomWords rnd P c d)"
    using random_source_rnd_pick by blast
qed

text \<open>
  The scenario of the specification: one \<open>easy\<close> item in the pool and five
  requested; the item \<open>terse\<close>, of difficulty \<open>hard\<close>, can be returned.
\<close>

theorem selectRandomWords_fallback_witness:
  "''easy'' \<noteq> ''all''
   \<and> length (filter (\<lambda>w. difficulty w = ''easy'') sample_pool) < 5
   \<and> selectRandomWords rnd_half sample_pool 5 ''easy'' = take 5 (shuffleArray rnd_half sample_pool)
   \<and> (\<exists>rnd. random_source rnd \<and> w_terse \<in> set (selectRandomWords rnd sample_pool 5 ''easy''))"
proof -
  have d: "''easy'' \<noteq> ''all''" by simp
  have few: "length (filter (\<lambda>w. difficulty w = ''easy'') sample_pool) < 5"
    by (simp add: sample_defs)
  have mem: "w_terse \<in> set sample_pool" by (simp add: sample_defs)
  show ?thesis
    using selectRandomWords_fallback [OF d few] d few mem by blast
qed

section \<open>createMultipleChoiceOptions\<close>

lemma count_list_mset: "count_list xs x = count (mset xs) x"
  by (induction xs) simp_all

lemma count_list_shuffleArray:
  "random_source rnd \<Longrightarrow> count_list (shuffleArray rnd xs) x = count_list xs x"
  by (simp add: count_list_mset mset_shuffleArray)

lemma set_generateWrongAnswers:
  assumes "random_source rnd"
  shows "set (generateWrongAnswers rnd cw ws n) \<subseteq> meaning ` {w \<in> set ws. word w \<noteq> word cw}"
proof -
  have "set (take n (shuffleArray rnd (wrongWords cw ws))) \<subseteq> set (shuffleArray rnd (wrongWords cw ws))"
    by (rule set_take_subset)
  also have "\<dots> = {w \<in> set ws. word w \<noteq> word cw}"
    by (simp add: set_shuffleArray [OF assms] wrongWords_def)
  finally show ?thesis
    by (auto simp: generateWrongAnswers_def)
qed

text \<open>
  Claim C4, as stated, fails: two catalogue items with different words and the same
  meaning make the correct meaning appear twice among the options. Here the pool is
  \<open>big\<close> and \<open>huge\<close>, both meaning \<open>large\<close>.
\<close>

theorem createMultipleChoiceOptions_twice_counterexample:
  "random_source rnd_zero
   \<and> count_list (createMultipleChoiceOptions rnd_zero rnd_zero w_big [w_big, w_huge]) (meaning w_big) = 2"
  by (simp add: random_source_rnd_zero createMultipleChoiceOptions_def generateWrongAnswers_def
      wrongWords_def shuffleArray_def swap_def random_index_def rnd_zero_def w_big_def w_huge_def)

text \<open>
  Claim C4, amended. The options hold the correct meaning once for the correct item
  and once more for every distractor that has the same meaning; the distractors are
  meanings of pool items whose word differs from the correct item's word; so the
  correct meaning appears exactly once whenever no pool item with another word has the
  same meaning.
\<close>

theorem createMultipleChoiceOptions_correct_meaning:
  assumes "random_source rnd1" and "random_source rnd2"
  shows "count_list (createMultipleChoiceOptions rnd1 rnd2 cw ws) (meaning cw)
           = Suc (count_list (generateWrongAnswers rnd1 cw ws 3) (meaning cw))
       \<and> set (generateWrongAnswers rnd1 cw ws 3) \<subseteq> meaning ` {w \<in> set ws. word w \<noteq> word cw}
       \<and> ((\<forall>w \<in> set ws. word w \<noteq> word cw \<longrightarrow> meaning w \<noteq> meaning cw) \<longrightarrow>
            count_list (createMultipleChoiceOptions rnd1 rnd2 cw ws) (meaning cw) = 1)"
proof -
  have one: "count_list (createMultipleChoiceOptions rnd1 rnd2 cw ws) (meaning cw)
           = Suc (count_list (generateWrongAnswers rnd1 cw ws 3) (meaning cw))"
    by (simp add: createMultipleChoiceOptions_def Let_def count_list_shuffleArray [OF assms(2)])
  have sub: "set (generateWrongAnswers rnd1 cw ws 3) \<subseteq> meaning ` {w \<in> set ws. word w \<noteq> word cw}"
    by (rule set_generateWrongAnswers [OF assms(1)])
  have "count_list (generateWrongAnswers rnd1 cw ws 3) (meaning cw) = 0"
    if "\<forall>w \<in> set ws. word w \<noteq> word cw \<longrightarrow> meaning w \<noteq> meaning cw"
  proof -
    have "meaning cw \<notin> set (generateWrongAnswers rnd1 cw ws 3)"
    proof
      assume "meaning cw \<in> set (generateWrongAnswers rnd1 cw ws 3)"
      with sub obtain w where "w \<in> set ws" "word w \<noteq> word cw" "meaning cw = meaning w"
        by blast
      with that show False by metis
    qed
    then show ?thesis by (simp add: count_list_0_iff)
  qed
  with one sub show ?thesis by simp
qed

text \<open>
  The instance for the sample catalogue, whose meanings are all different.
\<close>

theorem createMultipleChoiceOptions_correct_meaning_witness:
  "random_source rnd_half \<and> random_source rnd_zero
   \<and> distinct (map meaning sample_pool)
   \<and> count_list (createMultipleChoiceOptions rnd_half rnd_zero w_big sample_pool) (meaning w_big) = 1"
proof -
  have m: "\<forall>w \<in> set sample_pool. word w \<noteq> word w_big \<longrightarrow> meaning w \<noteq> meaning w_big"
    by (simp add: sample_defs)
  show ?thesis
    using createMultipleChoiceOptions_correct_meaning
      [OF random_source_rnd_half random_source_rnd_zero, of w_big sample_pool]
      m random_source_rnd_half random_source_rnd_zero by (simp add: sample_defs)
qed

section \<open>The session state machine\<close>

lemma storedValue_setValue: "storedValue (setValue pf key v h) = v"
  by (simp add: setValue_def)

lemma storedValue_initializeTest:
  "storedValue (initializeTest pf ws t0 h) =
     Some \<lparr>currentQuestionIndex = 0, score = 0, selectedWords = ws, answers = [],
           startTime = t0\<rparr>"
  by (simp add: initializeTest_def storedValue_setValue)

lemma spread_currentQuestionIndex:
  "spread_updates ts (no_updates\<lparr>set_currentQuestionIndex := Some k\<rparr>)
     = ts\<lparr>currentQuestionIndex := k\<rparr>"
  by (cases ts) (simp add: spread_updates_def no_updates_def)

lemma storedValue_updateTestState:
  "storedValue (updateTestState pf u h) = map_option (\<lambda>ts. spread_updates ts u) (storedValue h)"
  by (simp add: updateTestState_def storedValue_setValue split: option.splits)

lemma storedValue_recordAnswer:
  "storedValue (recordAnswer pf qi sel ok h) =
     map_option (\<lambda>ts. ts\<lparr>answers := updatedAnswers qi sel ok (answers ts),
                           score := (if ok then score ts + 1 else score ts)\<rparr>)
       (storedValue h)"
  by (simp add: recordAnswer_def storedValue_updateTestState spread_updates_def
      no_updates_def split: option.splits)

lemma storedValue_nextQuestion:
  "storedValue (nextQuestion pf h) =
     map_option (\<lambda>ts. if int (currentQuestionIndex ts) < int (length (selectedWords ts)) - 1
                      then ts\<lparr>currentQuestionIndex := currentQuestionIndex ts + 1\<rparr> else ts)
       (storedValue h)"
  by (simp add: nextQuestion_def storedValue_updateTestState spread_updates_def
      no_updates_def split: option.splits)

text \<open>
  Recording an answer a second time leaves the recorded answers as they are after the
  first time: the new answer is found at the position where it was put.
\<close>

lemma findIndex_bounds: "- 1 \<le> findIndex P xs \<and> findIndex P xs < int (length xs)"
  by (induction xs) (auto simp: Let_def)

lemma findIndex_found:
  "0 \<le> findIndex P xs \<Longrightarrow> P (xs ! nat (findIndex P xs))"
proof (induction xs)
  case Nil
  then show ?case by simp
next
  case (Cons x xs)
  then show ?case
    by (auto simp: Let_def nat_add_distrib split: if_splits)
qed

lemma findIndex_update:
  "0 \<le> findIndex P xs \<Longrightarrow> P y \<Longrightarrow> findIndex P (xs[nat (findIndex P xs) := y]) = findIndex P xs"
proof (induction xs)
  case Nil
  then show ?case by simp
next
  case (Cons x xs)
  show ?case
  proof (cases "P x")
    case True
    with Cons.prems show ?thesis by simp
  next
    case False
    with Cons.prems have f: "0 \<le> findIndex P xs"
      by (simp add: Let_def split: if_splits)
    with False have "nat (findIndex P (x # xs)) = Suc (nat (findIndex P xs))"
      by (simp add: Let_def nat_add_distrib)
    with False f Cons.IH [OF f Cons.prems(2)] show ?thesis
      by (simp add: Let_def)
  qed
qed

lemma findIndex_append_new:
  "findIndex P xs < 0 \<Longrightarrow> P y \<Longrightarrow> findIndex P (xs @ [y]) = int (length xs)"
  by (induction xs) (auto simp: Let_def split: if_splits)

lemma updatedAnswers_idem:
  "updatedAnswers qi sel ok (updatedAnswers qi sel ok as) = updatedAnswers qi sel ok as"
proof (cases "0 \<le> findIndex (\<lambda>a. questionIndex a = qi) as")
  case True
  let ?n = "\<lparr>questionIndex = qi, selectedAnswer = sel, correct = ok\<rparr>"
  have "findIndex (\<lambda>a. questionIndex a = qi)
          (as[nat (findIndex (\<lambda>a. questionIndex a = qi) as) := ?n])
        = findIndex (\<lambda>a. questionIndex a = qi) as"
    using True by (intro findIndex_update) simp_all
  with True show ?thesis
    by (simp add: updatedAnswers_def Let_def)
next
  case False
  let ?n = "\<lparr>questionIndex = qi, selectedAnswer = sel, correct = ok\<rparr>"
  from False have "findIndex (\<lambda>a. questionIndex a = qi) (as @ [?n]) = int (length as)"
    by (intro findIndex_append_new) simp_all
  with False show ?thesis
    by (simp add: updatedAnswers_def Let_def)
qed

lemma recordAnswer_twice:
  "storedValue (recordAnswer pf qi sel ok (recordAnswer pf qi sel ok h)) =
     map_option (\<lambda>ts. ts\<lparr>answers := updatedAnswers qi sel ok (answers ts),
                           score := (if ok then score ts + 2 else score ts)\<rparr>)
       (storedValue h)"
  by (cases "storedValue h") (simp_all add: storedValue_recordAnswer updatedAnswers_idem)

text \<open>
  Claim C1 says that recording the same answer twice for one question counts it once.
  The code replaces the recorded answer, as its comment says, but adds 1 to the score
  on every call with a correct answer: after two recordings of one correct answer in a
  new session one answer is recorded and the score is 2.
\<close>

theorem recordAnswer_twice_scores_twice:
  "map_option score
     (storedValue (recordAnswer pf qi sel True
        (recordAnswer pf qi sel True (initializeTest pf ws t0 h)))) = Some 2
   \<and> map_option answers
     (storedValue (recordAnswer pf qi sel True
        (recordAnswer pf qi sel True (initializeTest pf ws t0 h))))
       = Some [\<lparr>questionIndex = qi, selectedAnswer = sel, correct = True\<rparr>]"
  by (simp add: storedValue_recordAnswer storedValue_initializeTest updatedAnswers_def)

lemma initialized_in_range:
  assumes "initialized pf h"
  shows "\<exists>ts. storedValue h = Some ts
           \<and> currentQuestionIndex ts \<le> length (selectedWords ts) - 1"
  using assms
proof (induction rule: initialized.induct)
  case (init ws t0 h)
  show ?case by (simp add: storedValue_initializeTest)
next
  case (answer h qi sel ok)
  then obtain ts where "storedValue h = Some ts"
    and "currentQuestionIndex ts \<le> length (selectedWords ts) - 1" by blast
  then show ?case by (simp add: storedValue_recordAnswer)
next
  case (advance h)
  then obtain ts where "storedValue h = Some ts"
    and "currentQuestionIndex ts \<le> length (selectedWords ts) - 1" by blast
  then show ?case by (simp add: storedValue_nextQuestion, arith)
qed

text \<open>
  Claim C9. In a session that \<^verbatim>\<open>initializeTest\<close> created on a list of at least one
  item and that \<^verbatim>\<open>recordAnswer\<close> and \<^verbatim>\<open>nextQuestion\<close> brought to its present
  state, \<^verbatim>\<open>nextQuestion\<close> stores the session with \<open>currentQuestionIndex\<close> one
  higher when the index is not the last index of \<^verbatim>\<open>selectedWords\<close>, and changes
  nothing, neither the state nor the storage, when it is the last index. The function is
  total: no error is raised.
\<close>

theorem nextQuestion_advances:
  assumes "initialized pf h" and "storedValue h = Some ts" and "selectedWords ts \<noteq> []"
  shows "(currentQuestionIndex ts \<noteq> length (selectedWords ts) - 1 \<longrightarrow>
            nextQuestion pf h =
              setValue pf state_key
                (Some (ts\<lparr>currentQuestionIndex := currentQuestionIndex ts + 1\<rparr>)) h
          \<and> storedValue (nextQuestion pf h) =
              Some (ts\<lparr>currentQuestionIndex := currentQuestionIndex ts + 1\<rparr>))
       \<and> (currentQuestionIndex ts = length (selectedWords ts) - 1 \<longrightarrow> nextQuestion pf h = h)"
proof -
  from initialized_in_range [OF assms(1)] assms(2)
  have le: "currentQuestionIndex ts \<le> length (selectedWords ts) - 1" by simp
  from assms(3) have pos: "0 < length (selectedWords ts)" by (cases "selectedWords ts") simp_all
  show ?thesis
  proof (cases "currentQuestionIndex ts = length (selectedWords ts) - 1")
    case True
    then have "\<not> int (currentQuestionIndex ts) < int (length (selectedWords ts)) - 1"
      using pos by simp
    with assms(2) True show ?thesis by (simp add: nextQuestion_def)
  next
    case False
    with le pos have lt: "int (currentQuestionIndex ts) < int (length (selectedWords ts)) - 1"
      by simp
    have "nextQuestion pf h =
            setValue pf state_key (Some (ts\<lparr>currentQuestionIndex := currentQuestionIndex ts + 1\<rparr>)) h"
      using assms(2) lt
      by (simp add: nextQuestion_def updateTestState_def spread_currentQuestionIndex)
    with False show ?thesis by (simp add: storedValue_setValue)
  qed
qed

text \<open>
  On a session without questions there is no last index; \<^verbatim>\<open>nextQuestion\<close> changes
  nothing there.
\<close>

lemma nextQuestion_no_questions:
  "storedValue h = Some ts \<Longrightarrow> selectedWords ts = [] \<Longrightarrow> nextQuestion pf h = h"
  by (simp add: nextQuestion_def)

lemma storedValue_fresh_session:
  "storedValue fresh_session =
     Some \<lparr>currentQuestionIndex = 0, score = 0, selectedWords = sample_pool, answers = [],
           startTime = 1000\<rparr>"
  by (simp add: fresh_session_def storedValue_initializeTest)

lemma storedValue_last_question:
  "storedValue last_question =
     Some \<lparr>currentQuestionIndex = 3, score = 0, selectedWords = sample_pool, answers = [],
           startTime = 1000\<rparr>"
  by (simp add: last_question_def storedValue_nextQuestion storedValue_fresh_session
      sample_pool_def numeral_3_eq_3)

text \<open>
  The instances: a new session on the four items of the sample catalogue advances from
  question 0 to question 1; after three advances it is at the last index 3 and a fourth
  call changes nothing.
\<close>

theorem nextQuestion_advances_witness:
  "initialized browser fresh_session \<and> initialized browser last_question
   \<and> sample_pool \<noteq> []
   \<and> storedValue (nextQuestion browser fresh_session) =
       Some \<lparr>currentQuestionIndex = 1, score = 0, selectedWords = sample_pool, answers = [],
             startTime = 1000\<rparr>
   \<and> storedValue last_question =
       Some \<lparr>currentQuestionIndex = 3, score = 0, selectedWords = sample_pool, answers = [],
             startTime = 1000\<rparr>
   \<and> nextQuestion browser last_question = last_question"
proof -
  have i0: "initialized browser fresh_session"
    unfolding fresh_session_def by (rule initialized.init)
  have i3: "initialized browser last_question"
    unfolding last_question_def by (intro initialized.advance i0)
  have ne: "sample_pool \<noteq> []" by (simp add: sample_pool_def)
  have a: "storedValue (nextQuestion browser fresh_session) =
       Some \<lparr>currentQuestionIndex = 1, score = 0, selectedWords = sample_pool, answers = [],
             startTime = 1000\<rparr>"
    using nextQuestion_advances [OF i0 storedValue_fresh_session] ne
    by (simp add: sample_pool_def storedValue_setValue)
  have b: "nextQuestion browser last_question = last_question"
    using nextQuestion_advances [OF i3 storedValue_last_question] ne
    by (simp add: sample_pool_def)
  from i0 i3 ne a b storedValue_last_question show ?thesis by simp
qed

section \<open>Persisting the session\<close>

text \<open>
  Claim C8. When the window exists, the storage calls do not throw and
  \<^verbatim>\<open>JSON.parse\<close> reads back the session that \<^verbatim>\<open>JSON.stringify\<close> wrote (as a
  non-empty text), then the hook mounted on the storage that \<^verbatim>\<open>setValue\<close> left
  starts with the very session that was persisted: the same \<open>currentQuestionIndex\<close>,
  \<open>score\<close> and \<open>answers\<close>.
\<close>

theorem session_round_trip:
  assumes "has_window pf" and "\<not> getItem_throws pf state_key"
    and "JSON_stringify pf (Some ts) = Some str" and "str \<noteq> []"
    and "\<not> setItem_throws pf state_key str"
    and "JSON_parse pf str = Some (Some ts)"
  shows "storedValue (useTestState pf (localStorage (setValue pf state_key (Some ts) h)))
           = Some ts
       \<and> map_option currentQuestionIndex
           (storedValue (useTestState pf (localStorage (setValue pf state_key (Some ts) h))))
           = Some (currentQuestionIndex ts)
       \<and> map_option score
           (storedValue (useTestState pf (localStorage (setValue pf state_key (Some ts) h))))
           = Some (score ts)
       \<and> map_option answers
           (storedValue (useTestState pf (localStorage (setValue pf state_key (Some ts) h))))
           = Some (answers ts)"
proof -
  have "localStorage (setValue pf state_key (Some ts) h) state_key = Some str"
    using assms(1,3,5) by (simp add: setValue_def)
  then have "storedValue (useTestState pf (localStorage (setValue pf state_key (Some ts) h)))
           = Some ts"
    using assms(1,2,4,6) by (simp add: useTestState_def useLocalStorage_def load_storedValue_def)
  then show ?thesis by simp
qed

subsection \<open>The browser reads back the sessions it writes\<close>

lemma expect_append: "expect lit (lit @ r) = Some ((), r)"
  by (simp add: expect_def)

lemma field_print_key: "field k p (print_key k @ r) = p r"
  by (simp add: field_def expect_append)

subsubsection \<open>Numbers\<close>

lemma is_digit_int:
  "is_digit c \<longleftrightarrow> 48 \<le> (of_char c :: int) \<and> (of_char c :: int) \<le> 57"
proof -
  have "(of_char c :: int) = int (of_char c)"
    by (simp add: of_nat_of_char)
  then show ?thesis
    by (simp add: is_digit_def)
qed

lemma is_digit_char_of: "0 \<le> d \<Longrightarrow> d < 10 \<Longrightarrow> is_digit (char_of (48 + d :: int))"
  by (simp add: is_digit_int)

lemma digit_value_char_of:
  "0 \<le> d \<Longrightarrow> d < 10 \<Longrightarrow> (of_char (char_of (48 + d :: int)) :: int) - 48 = d"
  by simp

lemma digits_all: "0 \<le> n \<Longrightarrow> \<forall>c \<in> set (digits n). is_digit c"
proof (induction n rule: digits.induct)
  case (1 n)
  show ?case
  proof (cases "n < 10")
    case True
    with "1.prems" show ?thesis
      by (subst digits.simps) (simp add: is_digit_char_of)
  next
    case False
    then have "0 \<le> n div 10" by simp
    with False "1.IH" have "\<forall>c \<in> set (digits (n div 10)). is_digit c" by simp
    moreover have "is_digit (char_of (48 + n mod 10))"
      by (rule is_digit_char_of) simp_all
    ultimately show ?thesis
      using False by (subst digits.simps) simp
  qed
qed

lemma digits_nonempty: "digits n \<noteq> []"
  by (subst digits.simps) simp

lemma digits_value:
  "0 \<le> n \<Longrightarrow> foldl (\<lambda>n c. 10 * n + (of_char c - 48)) 0 (digits n) = n"
proof (induction n rule: digits.induct)
  case (1 n)
  show ?case
  proof (cases "n < 10")
    case True
    with "1.prems" show ?thesis
      by (subst digits.simps) simp
  next
    case False
    then have "0 \<le> n div 10" by simp
    with False "1.IH"
    have "foldl (\<lambda>n c. 10 * n + (of_char c - 48)) 0 (digits (n div 10)) = n div 10" by simp
    moreover have "(of_char (char_of (48 + n mod 10)) :: int) - 48 = n mod 10"
      by (rule digit_value_char_of) simp_all
    ultimately show ?thesis
      using False by (subst digits.simps) simp
  qed
qed


lemma parse_digits_digits:
  assumes "0 \<le> n" and "no_digit_ahead r"
  shows "parse_digits (digits n @ r) = Some (n, r)"
proof -
  have r: "takeWhile is_digit r = []" "dropWhile is_digit r = r"
    using assms(2) by (cases r; simp add: no_digit_ahead_def)+
  have t: "takeWhile is_digit (digits n @ r) = digits n"
    using digits_all [OF assms(1)] by (simp add: takeWhile_append2 r)
  have d: "dropWhile is_digit (digits n @ r) = r"
    using digits_all [OF assms(1)] by (simp add: dropWhile_append2 r)
  show ?thesis
    by (simp add: parse_digits_def t d digits_nonempty digits_value [OF assms(1)])
qed

lemma parse_nat_print_nat:
  "no_digit_ahead r \<Longrightarrow> parse_nat (print_nat n @ r) = Some (n, r)"
  by (simp add: parse_nat_def print_nat_def parse_digits_digits)

lemma digits_no_minus: "0 \<le> n \<Longrightarrow> hd (digits n) \<noteq> CHR ''-''"
proof -
  assume "0 \<le> n"
  then have "is_digit (hd (digits n))"
    using digits_all [of n] digits_nonempty [of n] by (simp add: hd_in_set)
  then show ?thesis by (auto simp: is_digit_def)
qed

lemma parse_int_print_int:
  assumes "no_digit_ahead r"
  shows "parse_int (print_int i @ r) = Some (i, r)"
proof (cases "i < 0")
  case True
  then show ?thesis
    using assms by (simp add: parse_int_def print_int_def parse_digits_digits)
next
  case False
  then have i: "0 \<le> i" by simp
  obtain c cs where ds: "digits i = c # cs"
    using digits_nonempty [of i] by (cases "digits i") simp_all
  with digits_no_minus [OF i] have "c \<noteq> CHR ''-''" by simp
  moreover have "parse_digits (c # cs @ r) = Some (i, r)"
    using parse_digits_digits [OF i assms] ds by simp
  ultimately show ?thesis
    using False ds by (simp add: parse_int_def print_int_def)
qed

lemma parse_bool_print_bool: "parse_bool (print_bool b @ r) = Some (b, r)"
  by (cases b) (simp_all add: parse_bool_def print_bool_def expect_def)

subsubsection \<open>Strings\<close>

lemma hex_value_hex_digit: "d < 16 \<Longrightarrow> hex_value (hex_digit d) = Some d"
  by (simp add: hex_value_def hex_digit_def Let_def)

lemma hex_value_zero: "hex_value (CHR ''0'') = Some 0"
  by (simp add: hex_value_def)

lemma unicode_escape_hex:
  assumes "h < 16" and "l < 16"
  shows "unicode_escape (CHR ''0'') (CHR ''0'') (hex_digit h) (hex_digit l)
       = Some (char_of (16 * h + l))"
  by (simp add: unicode_escape_def hex_value_zero hex_value_hex_digit [OF assms(1)]
      hex_value_hex_digit [OF assms(2)])

lemma char_of_div_mod: "char_of (16 * ((of_char c :: nat) div 16) + (of_char c :: nat) mod 16) = c"
  by simp

lemma string_body_escape_char:
  "string_body (escape c @ rest) = map_option (\<lambda>(s, r). (c # s, r)) (string_body rest)"
proof -
  consider (q) "c = quote" | (b) "c = backslash"
    | (s) "c \<in> {CHR 0x08, CHR 0x0C, CHR 0x0A, CHR 0x0D, CHR 0x09}"
    | (u) "c \<noteq> quote" "c \<noteq> backslash"
          "c \<notin> {CHR 0x08, CHR 0x0C, CHR 0x0A, CHR 0x0D, CHR 0x09}" "(of_char c :: nat) < 32"
    | (p) "c \<noteq> quote" "c \<noteq> backslash"
          "c \<notin> {CHR 0x08, CHR 0x0C, CHR 0x0A, CHR 0x0D, CHR 0x09}" "\<not> (of_char c :: nat) < 32"
    by blast
  then show ?thesis
  proof cases
    case q
    then show ?thesis by (simp add: escape_def unescape_def quote_def backslash_def)
  next
    case b
    then show ?thesis by (simp add: escape_def unescape_def quote_def backslash_def)
  next
    case s
    then show ?thesis
      by (auto simp: escape_def unescape_def quote_def backslash_def)
  next
    case u
    have h: "(of_char c :: nat) div 16 < 16" and l: "(of_char c :: nat) mod 16 < 16"
      using u(4) by simp_all
    have esc: "escape c = [backslash, CHR ''u'', CHR ''0'', CHR ''0'',
        hex_digit ((of_char c :: nat) div 16), hex_digit ((of_char c :: nat) mod 16)]"
      using u by (simp add: escape_def)
    have "unicode_escape (CHR ''0'') (CHR ''0'') (hex_digit ((of_char c :: nat) div 16))
            (hex_digit ((of_char c :: nat) mod 16)) = Some c"
      using unicode_escape_hex [OF h l] by (simp only: char_of_div_mod)
    then show ?thesis
      by (simp add: esc quote_def backslash_def)
  next
    case p
    then show ?thesis by (simp add: escape_def)
  qed
qed

lemma string_body_escaped:
  "string_body (concat (map escape s) @ quote # r) = Some (s, r)"
  by (induction s) (simp_all add: string_body_escape_char)

lemma parse_string_print_string: "parse_string (print_string s @ r) = Some (s, r)"
  by (simp add: parse_string_def print_string_def string_body_escaped)

subsubsection \<open>Arrays and objects\<close>

lemma expect_Nil: "expect [] r = Some ((), r)"
  by (simp add: expect_def)

lemma expect_Cons: "expect (c # lit) (c # r) = expect lit r"
  by (simp add: expect_def)

lemma expect_Cons_other: "c \<noteq> d \<Longrightarrow> expect (c # lit) (d # r) = None"
  by (simp add: expect_def)

lemma no_digit_ahead_simps:
  "no_digit_ahead (CHR '','' # r)" "no_digit_ahead (CHR ''}'' # r)"
  by (simp_all add: no_digit_ahead_def is_digit_def)

lemma elements_separated:
  assumes "\<forall>x \<in> set xs. \<forall>r. p (pr x @ r) = Some (x, r)"
    and "xs \<noteq> []" and "length xs \<le> n"
    and "\<forall>r. rest \<noteq> CHR '','' # r"
  shows "elements n p (separated (map pr xs) @ rest) = Some (xs, rest)"
  using assms
proof (induction xs arbitrary: n)
  case Nil
  then show ?case by simp
next
  case (Cons x xs)
  from Cons.prems(3) obtain m where n: "n = Suc m" and m: "length xs \<le> m"
    by (cases n) simp_all
  from Cons.prems(1) have px: "\<And>r. p (pr x @ r) = Some (x, r)" by simp
  from px [of "[]"] have px0: "p (pr x) = Some (x, [])" by simp
  show ?case
  proof (cases xs)
    case Nil
    then show ?thesis
      using px px0 Cons.prems(4) by (cases rest) (simp_all add: n)
  next
    case (Cons y ys)
    have "elements m p (separated (map pr xs) @ rest) = Some (xs, rest)"
      using Cons.prems(1,4) m Cons by (intro Cons.IH) simp_all
    then show ?thesis
      using px Cons by (simp add: n)
  qed
qed

lemma length_separated:
  assumes "\<forall>s \<in> set ss. s \<noteq> []"
  shows "length ss \<le> length (separated ss)"
  using assms
proof (induction ss rule: separated.induct)
  case 1
  show ?case by simp
next
  case (2 x)
  then show ?case by (cases x) simp_all
next
  case (3 x y ys)
  then show ?case by simp
qed

lemma parse_array_print_array:
  assumes "\<forall>x \<in> set xs. \<forall>r. p (pr x @ r) = Some (x, r)"
    and "\<forall>x \<in> set xs. \<exists>t. pr x = CHR ''{'' # t"
  shows "parse_array p (print_array pr xs @ rest) = Some (xs, rest)"
proof (cases xs)
  case Nil
  then show ?thesis
    by (simp add: parse_array_def print_array_def expect_Cons expect_Nil)
next
  case (Cons x ys)
  from assms(2) Cons obtain t where t: "pr x = CHR ''{'' # t" by auto
  let ?body = "separated (map pr xs) @ CHR '']'' # rest"
  have first: "\<exists>u. separated (map pr xs) = CHR ''{'' # u"
    using Cons t by (cases ys) simp_all
  then have no: "expect ''[]'' (CHR ''['' # ?body) = None"
    by (auto simp: expect_Cons expect_Cons_other)
  have ne: "\<forall>s \<in> set (map pr xs). s \<noteq> []"
    using assms(2) by auto
  have fuel: "length xs \<le> length ?body"
    using length_separated [OF ne] by simp
  have el: "elements (length ?body) p ?body = Some (xs, CHR '']'' # rest)"
    using assms(1) Cons fuel by (intro elements_separated) simp_all
  show ?thesis
    using no el
    by (simp add: parse_array_def print_array_def expect_Cons expect_Nil)
qed

lemma parse_Word_print_Word: "parse_Word (print_Word w @ r) = Some (w, r)"
  by (simp add: parse_Word_def print_Word_def expect_Cons expect_Nil field_print_key
      parse_string_print_string)

lemma parse_Answer_print_Answer: "parse_Answer (print_Answer a @ r) = Some (a, r)"
  by (simp add: parse_Answer_def print_Answer_def expect_Cons expect_Nil field_print_key
      parse_string_print_string parse_nat_print_nat parse_bool_print_bool no_digit_ahead_simps)

lemma parse_TestState_print_TestState:
  "parse_TestState (print_TestState ts @ r) = Some (ts, r)"
proof -
  have w: "parse_array parse_Word (print_array print_Word (selectedWords ts) @ rest)
             = Some (selectedWords ts, rest)" for rest
  proof (rule parse_array_print_array)
    show "\<forall>x \<in> set (selectedWords ts). \<forall>r. parse_Word (print_Word x @ r) = Some (x, r)"
      by (simp add: parse_Word_print_Word)
    show "\<forall>x \<in> set (selectedWords ts). \<exists>t. print_Word x = CHR ''{'' # t"
      by (simp add: print_Word_def)
  qed
  have a: "parse_array parse_Answer (print_array print_Answer (answers ts) @ rest)
             = Some (answers ts, rest)" for rest
  proof (rule parse_array_print_array)
    show "\<forall>x \<in> set (answers ts). \<forall>r. parse_Answer (print_Answer x @ r) = Some (x, r)"
      by (simp add: parse_Answer_print_Answer)
    show "\<forall>x \<in> set (answers ts). \<exists>t. print_Answer x = CHR ''{'' # t"
      by (simp add: print_Answer_def)
  qed
  show ?thesis
    by (simp add: parse_TestState_def print_TestState_def expect_Cons expect_Nil field_print_key
        parse_nat_print_nat parse_int_print_int no_digit_ahead_simps w a)
qed

lemma parse_session_print_TestState:
  "parse_session (print_TestState ts) = Some (Some ts)"
proof -
  have "print_TestState ts \<noteq> ''null''"
    by (simp add: print_TestState_def)
  moreover have "parse_TestState (print_TestState ts) = Some (ts, [])"
    using parse_TestState_print_TestState [of ts "[]"] by simp
  ultimately show ?thesis
    by (simp add: parse_session_def)
qed

lemma sample_session_text:
  "JSON_stringify browser (Some sample_session) = Some (print_TestState sample_session)"
  by (simp add: browser_def stringify_session_def)

lemma sample_session_parsed:
  "JSON_parse browser (print_TestState sample_session) = Some (Some sample_session)"
  by (simp add: browser_def parse_session_print_TestState)

text \<open>
  The instance: the sample session in the browser above, through its JSON text.
\<close>

theorem session_round_trip_witness:
  "has_window browser \<and> \<not> getItem_throws browser state_key
   \<and> JSON_stringify browser (Some sample_session) = Some (print_TestState sample_session)
   \<and> print_TestState sample_session \<noteq> []
   \<and> \<not> setItem_throws browser state_key (print_TestState sample_session)
   \<and> JSON_parse browser (print_TestState sample_session) = Some (Some sample_session)
   \<and> storedValue (useTestState browser
         (localStorage (setValue browser state_key (Some sample_session) fresh_session)))
       = Some sample_session"
proof -
  have w: "has_window browser" by (simp add: browser_def)
  have g: "\<not> getItem_throws browser state_key" by (simp add: browser_def)
  have n: "print_TestState sample_session \<noteq> []" by (simp add: print_TestState_def)
  have s: "\<not> setItem_throws browser state_key (print_TestState sample_session)"
    by (simp add: browser_def)
  show ?thesis
    using session_round_trip [OF w g sample_session_text n s sample_session_parsed, of fresh_session]
      w g n s sample_session_text sample_session_parsed by simp
qed

text \<open>
  In the browser above the hypotheses hold for every session, so every value that
  \<^verbatim>\<open>setValue\<close> persists is the value the hook starts with after a reload, and every
  session of the state machine resumes as it was.
\<close>

lemma browser_round_trip:
  "storedValue (useTestState browser (localStorage (setValue browser state_key v h))) = v"
proof (cases v)
  case None
  then show ?thesis
    by (simp add: useTestState_def useLocalStorage_def load_storedValue_def setValue_def
        browser_def stringify_session_def parse_session_def)
next
  case (Some ts)
  have "print_TestState ts \<noteq> []" by (simp add: print_TestState_def)
  with Some show ?thesis
    by (simp add: useTestState_def useLocalStorage_def load_storedValue_def setValue_def
        browser_def stringify_session_def parse_session_print_TestState)
qed

lemma setValue_resumes:
  "storedValue (useTestState browser (localStorage (setValue browser state_key v h)))
     = storedValue (setValue browser state_key v h)"
  by (simp add: browser_round_trip storedValue_setValue)

lemma initialized_resumes:
  assumes "initialized browser h"
  shows "storedValue (useTestState browser (localStorage h)) = storedValue h"
  using assms
proof (induction rule: initialized.induct)
  case (init ws t0 h)
  show ?case
    by (simp add: initializeTest_def setValue_resumes)
next
  case (answer h qi sel ok)
  then show ?case
    by (cases "storedValue h")
       (simp_all add: recordAnswer_def updateTestState_def setValue_resumes)
next
  case (advance h)
  then show ?case
    by (cases "storedValue h")
       (simp_all add: nextQuestion_def updateTestState_def setValue_resumes)
qed

section \<open>The statistics\<close>

subsection \<open>The arithmetic at work\<close>

lemma js_divide_15_20: "js_divide 15 20 = Num (3 / 4)"
  by code_simp

lemma times_100_three_quarters: "times_100 (Num (3 / 4)) = Num 75"
  by code_simp

lemma js_number_15: "js_number 15 = Num 15"
  by code_simp

lemma round_double_75: "round_double 75 = Num 75"
  by code_simp

lemma js_divide_30_40: "js_divide 30 40 = Num (3 / 4)"
  by code_simp

lemma js_divide_30_2: "js_divide 30 2 = Num 15"
  by code_simp

text \<open>
  Rounding shows: \<^verbatim>\<open>(11 / 20) * 100\<close> is not 55 but the next double above it, which
  JavaScript prints as \<^verbatim>\<open>55.00000000000001\<close>.
\<close>

lemma times_100_11_of_20: "times_100 (js_divide 11 20) = Num (55 + 1 / 2 ^ 47)"
  by code_simp

text \<open>
  \<^verbatim>\<open>1 / 10\<close> is the double nearest to one tenth, and \<open>2^53 + 1\<close>, halfway between
  two doubles, goes to the even one.
\<close>

lemma js_divide_1_10: "js_divide 1 10 = Num (3602879701896397 / 2 ^ 55)"
  by code_simp

lemma js_number_tie: "js_number (2 ^ 53 + 1) = Num (2 ^ 53)"
  by code_simp

lemma js_divide_by_one: "js_divide a 1 = js_number a"
  by (simp add: js_divide_def js_number_def)

subsection \<open>What updateUserStats sends and what the table holds\<close>

lemma written_stats_aggregate_spec: "written_stats u prior ts = aggregate_spec u prior ts"
  by (cases prior)
     (simp_all add: written_stats_def aggregate_spec_def zero_stats_def Let_def js_divide_by_one)

lemma single_stats_cases:
  assumes "length (filter (\<lambda>r. us_user_id r = u) rows) \<le> 1"
  shows "(filter (\<lambda>r. us_user_id r = u) rows = [] \<and> single_stats u rows = None)
       \<or> (\<exists>r. filter (\<lambda>r. us_user_id r = u) rows = [r] \<and> single_stats u rows = Some r)"
proof (cases "filter (\<lambda>r. us_user_id r = u) rows")
  case Nil
  then show ?thesis by (simp add: single_stats_def)
next
  case (Cons r rs)
  with assms have "rs = []" by simp
  with Cons show ?thesis by (simp add: single_stats_def)
qed

lemma us_user_id_written_stats: "us_user_id (written_stats u cs ts) = u"
  by (cases cs) (simp_all add: written_stats_def Let_def)

lemma us_user_id_stored_stats: "us_user_id (stored_stats be v) = us_user_id v"
  by (simp add: stored_stats_def)

lemma filter_map_written:
  assumes "us_user_id w = u"
  shows "filter (\<lambda>r. us_user_id r = u) (map (\<lambda>r. if us_user_id r = u then w else r) rows)
       = map (\<lambda>r. w) (filter (\<lambda>r. us_user_id r = u) rows)"
  using assms by (induction rows) auto

lemma updateUserStats_sends:
  assumes "on_select_stats be = Done"
  shows "requests (updateUserStats be (Some u) (Some ts) db)
       = requests db @
           [Select_user_stats,
            (case single_stats u (user_stats_table db) of
               Some cs \<Rightarrow> Update_user_stats (written_stats u (Some cs) ts)
             | None \<Rightarrow> Insert_user_stats (written_stats u None ts))]"
  using assms
  by (cases "single_stats u (user_stats_table db)")
     (simp_all add: updateUserStats_def Let_def sent_def)

lemma updateUserStats_writes:
  assumes "on_select_stats be = Done" and "on_write_stats be = Done"
    and "length (filter (\<lambda>r. us_user_id r = u) (user_stats_table db)) \<le> 1"
  shows "single_stats u (user_stats_table (updateUserStats be (Some u) (Some ts) db))
       = Some (stored_stats be (written_stats u (single_stats u (user_stats_table db)) ts))"
proof -
  from single_stats_cases [OF assms(3)] show ?thesis
  proof (elim disjE conjE exE)
    assume none: "filter (\<lambda>r. us_user_id r = u) (user_stats_table db) = []"
      and s: "single_stats u (user_stats_table db) = None"
    have "user_stats_table (updateUserStats be (Some u) (Some ts) db)
            = user_stats_table db @ [stored_stats be (written_stats u None ts)]"
      using assms(1,2) none s by (simp add: updateUserStats_def Let_def sent_def)
    then show ?thesis
      using none s
      by (simp add: single_stats_def us_user_id_written_stats us_user_id_stored_stats)
  next
    fix r
    assume one: "filter (\<lambda>r. us_user_id r = u) (user_stats_table db) = [r]"
      and s: "single_stats u (user_stats_table db) = Some r"
    have "user_stats_table (updateUserStats be (Some u) (Some ts) db)
            = map (\<lambda>x. if us_user_id x = u
                        then stored_stats be (written_stats u (Some r) ts) else x)
                (user_stats_table db)"
      using assms(1,2) s by (simp add: updateUserStats_def Let_def sent_def)
    then show ?thesis
      using one s
      by (simp add: single_stats_def filter_map_written us_user_id_written_stats
          us_user_id_stored_stats)
  qed
qed

lemma single_stats_SomeD:
  "single_stats u rows = Some r \<Longrightarrow> filter (\<lambda>r. us_user_id r = u) rows = [r]"
  by (auto simp: single_stats_def split: list.splits)

lemma aggregate_spec_15_of_20:
  assumes "score ts = 15" and "length (selectedWords ts) = 20"
  shows "aggregate_spec u None ts =
           \<lparr>us_user_id = u, us_total_tests = 1, us_total_questions = 20,
            us_correct_answers = 15, us_accuracy_percentage = Num 75,
            us_average_score = Num 15, us_best_score = 15\<rparr>"
  using assms
  by (simp add: aggregate_spec_def zero_stats_def Let_def js_divide_15_20
      round_double_75 js_divide_by_one js_number_15)

text \<open>
  Claim C5. Let the backend carry out the select and the write of
  \<^verbatim>\<open>updateUserStats\<close>, and let the user have at most one row (the column is
  \<^verbatim>\<open>UNIQUE\<close>). Then the call reads the user's row and sends one write, an update
  when the row is there and an insert when not, whose column values are the
  aggregation of the specification on the prior row, or on zeros when there is none:
  \<open>total_tests\<close> the prior value plus 1, \<open>total_questions\<close> the prior value plus the
  number of questions, \<open>correct_answers\<close> the prior value plus the score, the accuracy
  the quotient of the last two times 100, the average score the quotient of correct
  answers and tests, the best score the maximum of the prior best and the score; the
  table then holds these values for the user, the two decimal columns as the database
  keeps them. A session with 15 of 20 right and no prior row sends accuracy 75, and a
  score of 15 replaces the prior best only if it exceeds it.
\<close>

theorem updateUserStats_aggregates:
  assumes "on_select_stats be = Done" and "on_write_stats be = Done"
    and "length (filter (\<lambda>r. us_user_id r = u) (user_stats_table db)) \<le> 1"
  shows "requests (updateUserStats be (Some u) (Some ts) db)
           = requests db @
               [Select_user_stats,
                (case single_stats u (user_stats_table db) of
                   Some cs \<Rightarrow> Update_user_stats (aggregate_spec u (Some cs) ts)
                 | None \<Rightarrow> Insert_user_stats (aggregate_spec u None ts))]
       \<and> single_stats u (user_stats_table (updateUserStats be (Some u) (Some ts) db))
           = Some (stored_stats be
                     (aggregate_spec u (single_stats u (user_stats_table db)) ts))
       \<and> (score ts = 15 \<and> length (selectedWords ts) = 20 \<longrightarrow>
            (single_stats u (user_stats_table db) = None \<longrightarrow>
               requests (updateUserStats be (Some u) (Some ts) db)
                 = requests db @
                     [Select_user_stats,
                      Insert_user_stats
                        \<lparr>us_user_id = u, us_total_tests = 1, us_total_questions = 20,
                         us_correct_answers = 15, us_accuracy_percentage = Num 75,
                         us_average_score = Num 15, us_best_score = 15\<rparr>])
            \<and> (\<forall>cs. single_stats u (user_stats_table db) = Some cs \<longrightarrow>
                   (\<exists>v. requests (updateUserStats be (Some u) (Some ts) db)
                          = requests db @ [Select_user_stats, Update_user_stats v]
                        \<and> us_best_score v =
                            (if 15 > us_best_score cs then 15 else us_best_score cs))))"
proof -
  have sends: "requests (updateUserStats be (Some u) (Some ts) db)
           = requests db @
               [Select_user_stats,
                (case single_stats u (user_stats_table db) of
                   Some cs \<Rightarrow> Update_user_stats (aggregate_spec u (Some cs) ts)
                 | None \<Rightarrow> Insert_user_stats (aggregate_spec u None ts))]"
    using updateUserStats_sends [OF assms(1), of u ts db]
    by (cases "single_stats u (user_stats_table db)")
       (simp_all add: written_stats_aggregate_spec)
  have holds: "single_stats u (user_stats_table (updateUserStats be (Some u) (Some ts) db))
           = Some (stored_stats be
                     (aggregate_spec u (single_stats u (user_stats_table db)) ts))"
    using updateUserStats_writes [OF assms] by (simp add: written_stats_aggregate_spec)
  have fresh: "requests (updateUserStats be (Some u) (Some ts) db)
                 = requests db @
                     [Select_user_stats,
                      Insert_user_stats
                        \<lparr>us_user_id = u, us_total_tests = 1, us_total_questions = 20,
                         us_correct_answers = 15, us_accuracy_percentage = Num 75,
                         us_average_score = Num 15, us_best_score = 15\<rparr>]"
    if "score ts = 15" and "length (selectedWords ts) = 20"
      and "single_stats u (user_stats_table db) = None"
    using sends that(3) by (simp add: aggregate_spec_15_of_20 [OF that(1,2)])
  have best: "\<exists>v. requests (updateUserStats be (Some u) (Some ts) db)
                    = requests db @ [Select_user_stats, Update_user_stats v]
                  \<and> us_best_score v = (if 15 > us_best_score cs then 15 else us_best_score cs)"
    if "score ts = 15" and "single_stats u (user_stats_table db) = Some cs" for cs
  proof (intro exI conjI)
    show "requests (updateUserStats be (Some u) (Some ts) db)
            = requests db @ [Select_user_stats, Update_user_stats (aggregate_spec u (Some cs) ts)]"
      using sends that(2) by simp
    show "us_best_score (aggregate_spec u (Some cs) ts)
            = (if 15 > us_best_score cs then 15 else us_best_score cs)"
      using that(1) by (simp add: aggregate_spec_def Let_def max_def)
  qed
  from sends holds fresh best show ?thesis
    by blast
qed

text \<open>
  The instance: the finished sample session of a user without a row, then the same
  session once more, now with the row of the first call as the prior record.
\<close>

theorem updateUserStats_aggregates_witness:
  "on_select_stats (all_done 1) = Done \<and> on_write_stats (all_done 1) = Done
   \<and> score session_15_of_20 = 15 \<and> length (selectedWords session_15_of_20) = 20
   \<and> requests (updateUserStats (all_done 1) (Some ''user-1'') (Some session_15_of_20)
         empty_database)
       = [Select_user_stats,
          Insert_user_stats
            \<lparr>us_user_id = ''user-1'', us_total_tests = 1, us_total_questions = 20,
             us_correct_answers = 15, us_accuracy_percentage = Num 75,
             us_average_score = Num 15, us_best_score = 15\<rparr>]
   \<and> single_stats ''user-1''
         (user_stats_table (updateUserStats (all_done 1) (Some ''user-1'')
            (Some session_15_of_20) empty_database))
       = Some \<lparr>us_user_id = ''user-1'', us_total_tests = 1, us_total_questions = 20,
               us_correct_answers = 15, us_accuracy_percentage = Num 75,
               us_average_score = Num 15, us_best_score = 15\<rparr>
   \<and> requests (updateUserStats (all_done 1) (Some ''user-1'') (Some session_15_of_20)
         stats_after_one)
       = requests stats_after_one @
         [Select_user_stats,
          Update_user_stats
            \<lparr>us_user_id = ''user-1'', us_total_tests = 2, us_total_questions = 40,
             us_correct_answers = 30, us_accuracy_percentage = Num 75,
             us_average_score = Num 15, us_best_score = 15\<rparr>]"
proof -
  have sel: "on_select_stats (all_done 1) = Done" and wr: "on_write_stats (all_done 1) = Done"
    by (simp_all add: all_done_def)
  have uniq: "length (filter (\<lambda>r. us_user_id r = ''user-1'') (user_stats_table empty_database))
      \<le> 1"
    by (simp add: empty_database_def)
  have s: "score session_15_of_20 = 15" by (simp add: session_15_of_20_def)
  have l: "length (selectedWords session_15_of_20) = 20"
    by code_simp
  have none: "single_stats ''user-1'' (user_stats_table empty_database) = None"
    by (simp add: single_stats_def empty_database_def)
  have rq: "requests empty_database = []"
    by (simp add: empty_database_def)
  have keep: "stored_stats (all_done 1)
      \<lparr>us_user_id = ''user-1'', us_total_tests = 1, us_total_questions = 20,
       us_correct_answers = 15, us_accuracy_percentage = Num 75,
       us_average_score = Num 15, us_best_score = 15\<rparr>
    = \<lparr>us_user_id = ''user-1'', us_total_tests = 1, us_total_questions = 20,
       us_correct_answers = 15, us_accuracy_percentage = Num 75,
       us_average_score = Num 15, us_best_score = 15\<rparr>"
    by code_simp
  note inst = updateUserStats_aggregates [OF sel wr uniq, of session_15_of_20]
  have row: "aggregate_spec ''user-1'' None session_15_of_20 =
      \<lparr>us_user_id = ''user-1'', us_total_tests = 1, us_total_questions = 20,
       us_correct_answers = 15, us_accuracy_percentage = Num 75,
       us_average_score = Num 15, us_best_score = 15\<rparr>"
    by (rule aggregate_spec_15_of_20 [OF s l])
  from inst s l none
  have "requests (updateUserStats (all_done 1) (Some ''user-1'')
        (Some session_15_of_20) empty_database)
      = requests empty_database @
        [Select_user_stats,
         Insert_user_stats
           \<lparr>us_user_id = ''user-1'', us_total_tests = 1, us_total_questions = 20,
            us_correct_answers = 15, us_accuracy_percentage = Num 75,
            us_average_score = Num 15, us_best_score = 15\<rparr>]"
    by blast
  then have req': "requests (updateUserStats (all_done 1) (Some ''user-1'')
        (Some session_15_of_20) empty_database)
      = [Select_user_stats,
         Insert_user_stats
           \<lparr>us_user_id = ''user-1'', us_total_tests = 1, us_total_questions = 20,
            us_correct_answers = 15, us_accuracy_percentage = Num 75,
            us_average_score = Num 15, us_best_score = 15\<rparr>]"
    by (simp only: rq append_Nil)
  from inst have tab: "single_stats ''user-1''
        (user_stats_table (updateUserStats (all_done 1) (Some ''user-1'')
           (Some session_15_of_20) empty_database))
      = Some (stored_stats (all_done 1) (aggregate_spec ''user-1'' None session_15_of_20))"
    by (simp add: none)
  from tab have tab': "single_stats ''user-1''
        (user_stats_table (updateUserStats (all_done 1) (Some ''user-1'')
           (Some session_15_of_20) empty_database))
      = Some \<lparr>us_user_id = ''user-1'', us_total_tests = 1, us_total_questions = 20,
              us_correct_answers = 15, us_accuracy_percentage = Num 75,
              us_average_score = Num 15, us_best_score = 15\<rparr>"
    by (simp only: row keep)
  have one: "single_stats ''user-1'' (user_stats_table stats_after_one)
      = Some \<lparr>us_user_id = ''user-1'', us_total_tests = 1, us_total_questions = 20,
              us_correct_answers = 15, us_accuracy_percentage = Num 75,
              us_average_score = Num 15, us_best_score = 15\<rparr>"
    using tab' by (simp only: stats_after_one_def)
  have uniq1: "length (filter (\<lambda>r. us_user_id r = ''user-1'') (user_stats_table stats_after_one))
      \<le> 1"
    using single_stats_SomeD [OF one] by simp
  have again: "aggregate_spec ''user-1''
        (Some \<lparr>us_user_id = ''user-1'', us_total_tests = 1, us_total_questions = 20,
               us_correct_answers = 15, us_accuracy_percentage = Num 75,
               us_average_score = Num 15, us_best_score = 15\<rparr>) session_15_of_20
      = \<lparr>us_user_id = ''user-1'', us_total_tests = 2, us_total_questions = 40,
         us_correct_answers = 30, us_accuracy_percentage = Num 75,
         us_average_score = Num 15, us_best_score = 15\<rparr>"
    using s l
    by (simp add: aggregate_spec_def Let_def js_divide_30_40 js_divide_30_2 round_double_75)
  from updateUserStats_aggregates [OF sel wr uniq1, of session_15_of_20]
  have req2: "requests (updateUserStats (all_done 1) (Some ''user-1'') (Some session_15_of_20)
        stats_after_one)
      = requests stats_after_one @
        [Select_user_stats,
         Update_user_stats
           \<lparr>us_user_id = ''user-1'', us_total_tests = 2, us_total_questions = 40,
            us_correct_answers = 30, us_accuracy_percentage = Num 75,
            us_average_score = Num 15, us_best_score = 15\<rparr>]"
    by (simp add: one again)
  from sel wr s l req' tab' req2 show ?thesis
    by blast
qed

section \<open>saveTestResult\<close>

text \<open>
  Claim C7. When the insert of the result fails (the backend answers with an error,
  or the call throws), both versions of \<^verbatim>\<open>saveTestResult\<close> return \<^verbatim>\<open>null\<close>, and
  the only request they have sent is that insert: no request to \<^verbatim>\<open>user_stats\<close> is
  made, and both tables are as before.
\<close>

theorem saveTestResult_insert_fails:
  assumes "on_insert_result be \<noteq> Done"
  shows "saveTestResult be user ts d e db
           = (None, if user = None \<or> ts = None then db else sent Insert_test_results db)
       \<and> saveTestResult_app be user ts d e db
           = (None, if user = None \<or> ts = None then db else sent Insert_test_results db)
       \<and> user_stats_table (snd (saveTestResult be user ts d e db)) = user_stats_table db
       \<and> user_stats_table (snd (saveTestResult_app be user ts d e db)) = user_stats_table db
       \<and> test_results (snd (saveTestResult be user ts d e db)) = test_results db
       \<and> test_results (snd (saveTestResult_app be user ts d e db)) = test_results db"
  using assms
  by (auto simp: saveTestResult_def saveTestResult_app_def Let_def sent_def split: option.splits)

text \<open>
  The instance: a backend that refuses the insert.
\<close>

theorem saveTestResult_insert_fails_witness:
  "on_insert_result insert_refused \<noteq> Done
   \<and> saveTestResult insert_refused (Some ''user-1'') (Some session_15_of_20) ''all'' 61000
        empty_database = (None, sent Insert_test_results empty_database)
   \<and> saveTestResult_app insert_refused (Some ''user-1'') (Some session_15_of_20) ''all'' 61000
        empty_database = (None, sent Insert_test_results empty_database)
   \<and> requests (sent Insert_test_results empty_database) = [Insert_test_results]"
proof -
  have f: "on_insert_result insert_refused \<noteq> Done"
    by (simp add: insert_refused_def all_done_def)
  show ?thesis
    using saveTestResult_insert_fails [OF f, of "Some ''user-1''" "Some session_15_of_20"
        "''all''" 61000 empty_database] f
    by (simp add: sent_def empty_database_def)
qed

lemma test_results_updateUserStats:
  "test_results (updateUserStats be user ts db) = test_results db"
  by (simp add: updateUserStats_def Let_def sent_def split: option.splits)

lemma test_results_saveTestResult_app:
  assumes "on_insert_result be = Done"
  shows "test_results (snd (saveTestResult_app be (Some u) (Some ts) d e db))
       = test_results db @ [new_test_result be u ts d e db]"
  using assms
  by (simp add: saveTestResult_app_def Let_def test_results_updateUserStats sent_def)

lemma tr_user_id_new_test_result: "tr_user_id (new_test_result be u ts d e db) = u"
  by (simp add: new_test_result_def Let_def)

lemma complete_quizzes_app_rows:
  "length (filter (\<lambda>r. tr_user_id r = ''user-1'') (test_results (complete_quizzes_app n db)))
     = length (filter (\<lambda>r. tr_user_id r = ''user-1'') (test_results db)) + n"
  by (induction n)
     (simp_all add: test_results_saveTestResult_app all_done_def tr_user_id_new_test_result)

text \<open>
  Claim C6 says that 20 rows remain after 21 completed quizzes. The
  \<^verbatim>\<open>saveTestResult\<close> of src/app/hooks/useTestResults.ts, which the result page
  imports, never calls a cleanup: after 21 quizzes of one user on an empty database,
  every request carried out, the user has 21 rows.
\<close>

theorem saveTestResult_app_keeps_21:
  "length (filter (\<lambda>r. tr_user_id r = ''user-1'')
     (test_results (complete_quizzes_app 21 empty_database))) = 21"
  by (simp add: complete_quizzes_app_rows empty_database_def)

subsection \<open>The version that ends with cleanupOldTests\<close>

lemma fold_max_ge: "x \<in> set xs \<Longrightarrow> x \<le> fold max xs (m::nat)"
proof (induction xs arbitrary: m)
  case Nil
  then show ?case by simp
next
  case (Cons a xs)
  have mono: "m \<le> fold max xs m" for m :: nat
    by (induction xs arbitrary: m) (auto intro: order_trans [OF max.cobounded2] simp: )
  from Cons show ?case
    by (auto intro: order_trans [OF max.cobounded1 mono])
qed

lemma fresh_id_fresh: "fresh_id rows \<notin> tr_id ` set rows"
proof
  assume "fresh_id rows \<in> tr_id ` set rows"
  then have "fresh_id rows \<in> set (map tr_id rows)" by simp
  then have "fresh_id rows \<le> fold max (map tr_id rows) 0" by (rule fold_max_ge)
  then show False by (simp add: fresh_id_def)
qed

lemma distinct_ids_newest_first:
  assumes "distinct (map tr_id rows)"
  shows "distinct (map tr_id (newest_first u rows))"
proof -
  have "mset (map tr_id (newest_first u rows))
          = mset (map tr_id (filter (\<lambda>r. tr_user_id r = u) rows))"
    by (simp add: newest_first_def)
  moreover have "distinct (map tr_id (filter (\<lambda>r. tr_user_id r = u) rows))"
    using assms by (rule distinct_map_filter)
  ultimately show ?thesis
    by (metis mset_eq_imp_distinct_iff)
qed

lemma newest_first_filter:
  "newest_first u (filter P rows) = filter P (newest_first u rows)"
proof -
  have "filter (\<lambda>r. tr_user_id r = u) (filter P rows)
          = filter P (filter (\<lambda>r. tr_user_id r = u) rows)"
    by (simp add: conj_commute)
  then have "newest_first u (filter P rows)
          = rev (sort_key tr_created_at (filter P (filter (\<lambda>r. tr_user_id r = u) rows)))"
    by (simp only: newest_first_def)
  also have "\<dots> = rev (filter P (sort_key tr_created_at (filter (\<lambda>r. tr_user_id r = u) rows)))"
    by (simp only: filter_sort)
  also have "\<dots> = filter P (newest_first u rows)"
    by (simp only: rev_filter newest_first_def)
  finally show ?thesis .
qed

lemma prune_listing:
  assumes "distinct (map tr_id L)"
  shows "filter (\<lambda>r. tr_id r \<notin> set (map tr_id (drop n L))) L = take n L"
proof -
  have split: "L = take n L @ drop n L" by simp
  have d: "distinct (map tr_id (take n L) @ map tr_id (drop n L))"
    using assms by (metis append_take_drop_id map_append)
  then have disj: "\<forall>r \<in> set (take n L). tr_id r \<notin> set (map tr_id (drop n L))"
    by auto
  have a: "filter (\<lambda>r. tr_id r \<notin> set (map tr_id (drop n L))) (take n L) = take n L"
    using disj by (simp add: filter_id_conv)
  have b: "filter (\<lambda>r. tr_id r \<notin> set (map tr_id (drop n L))) (drop n L) = []"
    by (simp add: filter_empty_conv)
  have "filter (\<lambda>r. tr_id r \<notin> set (map tr_id (drop n L))) (take n L @ drop n L) = take n L"
    unfolding filter_append a b by simp
  then show ?thesis by simp
qed

lemma cleanupOldTests_prunes:
  assumes "on_select_results be = Done" and "on_delete_results be = Done"
    and "distinct (map tr_id (test_results db))"
  shows "newest_first u (test_results (snd (cleanupOldTests be (Some u) db)))
       = take 20 (newest_first u (test_results db))"
proof (cases "length (newest_first u (test_results db)) > 20")
  case True
  have "test_results (snd (cleanupOldTests be (Some u) db))
          = filter (\<lambda>r. tr_id r \<notin> set (map tr_id (drop 20 (newest_first u (test_results db)))))
              (test_results db)"
    using assms(1,2) True by (simp add: cleanupOldTests_def Let_def sent_def)
  then show ?thesis
    by (simp only: newest_first_filter prune_listing [OF distinct_ids_newest_first [OF assms(3)]])
next
  case False
  then have "test_results (snd (cleanupOldTests be (Some u) db)) = test_results db"
    using assms(1) by (simp add: cleanupOldTests_def Let_def sent_def)
  with False show ?thesis by simp
qed

lemma saveTestResult_prunes:
  assumes "on_insert_result be = Done" and "on_select_results be = Done"
    and "on_delete_results be = Done" and "distinct (map tr_id (test_results db))"
  shows "newest_first u (test_results (snd (saveTestResult be (Some u) (Some ts) d e db)))
       = take 20 (newest_first u (test_results db @ [new_test_result be u ts d e db]))"
proof -
  let ?row = "new_test_result be u ts d e db"
  let ?db2 = "(sent Insert_test_results db)\<lparr>test_results := test_results db @ [?row]\<rparr>"
  let ?db3 = "updateUserStats be (Some u) (Some ts) ?db2"
  have id: "tr_id ?row \<notin> tr_id ` set (test_results db)"
    using fresh_id_fresh [of "test_results db"] by (simp add: new_test_result_def Let_def)
  have rows3: "test_results ?db3 = test_results db @ [?row]"
    by (simp add: test_results_updateUserStats sent_def)
  have dist: "distinct (map tr_id (test_results ?db3))"
    using assms(4) id by (simp add: rows3)
  have "snd (saveTestResult be (Some u) (Some ts) d e db) = snd (cleanupOldTests be (Some u) ?db3)"
    using assms(1) by (simp add: saveTestResult_def Let_def sent_def)
  then show ?thesis
    using cleanupOldTests_prunes [OF assms(2,3) dist, of u] by (simp add: rows3)
qed

text \<open>
  With the version that ends with \<^verbatim>\<open>cleanupOldTests\<close> the same user has
  \<open>min 20 n\<close> rows after \<open>n\<close> quizzes: 20 after 21.
\<close>

lemma distinct_ids_cleanupOldTests:
  "distinct (map tr_id (test_results db)) \<Longrightarrow>
   distinct (map tr_id (test_results (snd (cleanupOldTests be user db))))"
  by (auto simp: cleanupOldTests_def Let_def sent_def distinct_map_filter split: option.splits)

lemma distinct_ids_saveTestResult:
  assumes "distinct (map tr_id (test_results db))"
  shows "distinct (map tr_id (test_results (snd (saveTestResult be user ts d e db))))"
proof (cases "\<exists>u s. user = Some u \<and> ts = Some s \<and> on_insert_result be = Done")
  case True
  then obtain u s where us: "user = Some u" "ts = Some s" "on_insert_result be = Done" by blast
  let ?row = "new_test_result be u s d e db"
  let ?db3 = "updateUserStats be (Some u) (Some s)
                ((sent Insert_test_results db)\<lparr>test_results := test_results db @ [?row]\<rparr>)"
  have id: "tr_id ?row \<notin> tr_id ` set (test_results db)"
    using fresh_id_fresh [of "test_results db"] by (simp add: new_test_result_def Let_def)
  have "distinct (map tr_id (test_results ?db3))"
    using assms id by (simp add: test_results_updateUserStats sent_def)
  then have "distinct (map tr_id (test_results (snd (cleanupOldTests be (Some u) ?db3))))"
    by (rule distinct_ids_cleanupOldTests)
  moreover have "snd (saveTestResult be user ts d e db) = snd (cleanupOldTests be (Some u) ?db3)"
    using us by (simp add: saveTestResult_def Let_def sent_def)
  ultimately show ?thesis by simp
next
  case False
  then have "test_results (snd (saveTestResult be user ts d e db)) = test_results db"
    by (auto simp: saveTestResult_def Let_def sent_def split: option.splits)
  with assms show ?thesis by simp
qed

lemma distinct_ids_complete_quizzes:
  "distinct (map tr_id (test_results db)) \<Longrightarrow>
   distinct (map tr_id (test_results (complete_quizzes n db)))"
  by (induction n) (simp_all add: distinct_ids_saveTestResult)

lemma length_newest_first:
  "length (newest_first u rows) = length (filter (\<lambda>r. tr_user_id r = u) rows)"
  by (simp add: newest_first_def)

lemma complete_quizzes_keeps_20:
  "length (filter (\<lambda>r. tr_user_id r = ''user-1'')
     (test_results (complete_quizzes n empty_database))) = min 20 n"
proof (induction n)
  case 0
  show ?case by (simp add: empty_database_def)
next
  case (Suc n)
  let ?db = "complete_quizzes n empty_database"
  have d: "distinct (map tr_id (test_results ?db))"
    by (rule distinct_ids_complete_quizzes) (simp add: empty_database_def)
  have "newest_first ''user-1'' (test_results (complete_quizzes (Suc n) empty_database))
      = take 20 (newest_first ''user-1''
          (test_results ?db @
           [new_test_result (all_done (Suc n)) ''user-1'' session_15_of_20 ''all'' 61000 ?db]))"
    using saveTestResult_prunes [OF _ _ _ d, of "all_done (Suc n)"]
    by (simp add: all_done_def)
  then have "length (newest_first ''user-1'' (test_results (complete_quizzes (Suc n) empty_database)))
      = min 20 (Suc (length (filter (\<lambda>r. tr_user_id r = ''user-1'') (test_results ?db))))"
    by (simp add: length_newest_first tr_user_id_new_test_result)
  with Suc show ?case
    by (simp add: length_newest_first)
qed

end
